theory Spec2Isabelle
  imports Main "HOL-Library.AList" "HOL-Library.Char_ord" "HOL-Library.List_Lexorder"
begin

section \<open>Python values used by disk\_msg\_handler.py\<close>

text \<open>
  Strings are ASCII \<open>string\<close>s. A value read with \<open>jsonMsg.get(key)\<close> is a
  \<open>string option\<close>: \<open>None\<close> is Python's \<open>None\<close> (the key is missing or null), the
  fields of the inbound messages being strings.
\<close>

datatype exn =
    ValueError
  | KeyError
  | TypeError
  | AttributeError
  | UnboundLocalError string

text \<open>\<open>Drive._drive_num\<close> starts as the integer \<open>-1\<close> and becomes a path segment.\<close>

datatype intstr = PyInt int | PyStr string

text \<open>\<open>s.lower()\<close> on ASCII.\<close>

definition lower_char :: "char \<Rightarrow> char" where
  "lower_char c =
     (let n = (of_char c :: nat) in if 65 \<le> n \<and> n \<le> 90 then char_of (n + 32) else c)"

definition lower :: "string \<Rightarrow> string" where
  "lower s = map lower_char s"

text \<open>\<open>s.split(sep)\<close> for a one-character separator: never the empty list.\<close>

fun split :: "char \<Rightarrow> string \<Rightarrow> string list" where
  "split sep [] = [[]]"
| "split sep (c # cs) =
     (if c = sep then [] # split sep cs
      else (case split sep cs of
              [] \<Rightarrow> [[c]]
            | seg # segs \<Rightarrow> (c # seg) # segs))"

text \<open>\<open>s.split(sep, 1)\<close>: at most one cut, at the first separator.\<close>

definition split1 :: "char \<Rightarrow> string \<Rightarrow> string list" where
  "split1 sep s =
     (case dropWhile (\<lambda>c. c \<noteq> sep) s of
        [] \<Rightarrow> [s]
      | _ # rest \<Rightarrow> [takeWhile (\<lambda>c. c \<noteq> sep) s, rest])"

text \<open>\<open>a, b = xs\<close>: ValueError unless \<open>xs\<close> has exactly two items.\<close>

fun unpack2 :: "'a list \<Rightarrow> exn + ('a \<times> 'a)" where
  "unpack2 [a, b] = Inr (a, b)"
| "unpack2 _ = Inl ValueError"

text \<open>\<open>str(x)\<close> and \<open>"{}".format(x)\<close> for a string or \<open>None\<close>.\<close>

definition str :: "string option \<Rightarrow> string" where
  "str x = (case x of None \<Rightarrow> ''None'' | Some s \<Rightarrow> s)"

fun startswith :: "string \<Rightarrow> string \<Rightarrow> bool" where
  "startswith s [] = True"
| "startswith [] (p # ps) = False"
| "startswith (c # cs) (p # ps) = (c = p \<and> startswith cs ps)"

text \<open>\<open>sub in s\<close> for strings.\<close>

fun contains :: "string \<Rightarrow> string \<Rightarrow> bool" where
  "contains [] sub = (sub = [])"
| "contains (c # cs) sub = (startswith (c # cs) sub \<or> contains cs sub)"

section \<open>class Drive\<close>

record drive =
  hostId :: string
  path :: "string option"
  status :: "string option"
  serialNumber :: "string option"
  drawer :: "string option"
  location :: "string option"
  manufacturer :: "string option"
  productName :: "string option"
  productVersion :: "string option"
  wwn :: "string option"
  enclosure :: string
  drive_num :: intstr
  filename :: string

text \<open>\<open>Drive.__init__\<close> with all ten arguments given.\<close>

definition Drive ::
  "string \<Rightarrow> string option \<Rightarrow> string option \<Rightarrow> string option \<Rightarrow> string option \<Rightarrow>
   string option \<Rightarrow> string option \<Rightarrow> string option \<Rightarrow> string option \<Rightarrow> string option \<Rightarrow> drive"
where
  "Drive h p st sn dr loc man pn pv w =
     \<lparr> hostId = h, path = p, status = st, serialNumber = sn, drawer = dr, location = loc,
       manufacturer = man, productName = pn, productVersion = pv, wwn = w,
       enclosure = ''N/A'', drive_num = PyInt (- 1), filename = ''N/A'' \<rparr>"

text \<open>\<open>Drive(hostId, path, status, serialNumber)\<close>: the other six default to \<open>"N/A"\<close>.\<close>

definition Drive4 :: "string \<Rightarrow> string option \<Rightarrow> string option \<Rightarrow> string option \<Rightarrow> drive" where
  "Drive4 h p st sn =
     Drive h p st sn (Some ''N/A'') (Some ''N/A'') (Some ''N/A'') (Some ''N/A'')
       (Some ''N/A'') (Some ''N/A'')"

text \<open>What \<open>logger\<close> is given; the text is the fixed part of the message.\<close>

datatype log_entry =
    LogInfo string
  | LogWarn string
  | LogError string
  | LogException string

text \<open>
  The parsers return the boolean, the drive as mutated, and what they logged.
  \<open>self._path.split("/")\<close> on \<open>None\<close> raises AttributeError inside the \<open>try\<close>.
\<close>

definition parse_drive_mngr_path :: "drive \<Rightarrow> bool \<times> drive \<times> log_entry list" where
  "parse_drive_mngr_path d =
     (case path d of
        None \<Rightarrow> (False, d, [LogException ''Drive, _parse_path: ignoring event.''])
      | Some p \<Rightarrow>
          (let path_values = split CHR ''/'' p in
           if length path_values < 4 then (False, d, [])
           else (True,
                 d\<lparr> enclosure := path_values ! 0,
                    drive_num := PyStr (path_values ! 2),
                    filename := path_values ! 3 \<rparr>,
                 [])))"

definition parse_hpi_path :: "drive \<Rightarrow> bool \<times> drive \<times> log_entry list" where
  "parse_hpi_path d =
     (case path d of
        None \<Rightarrow> (False, d, [LogException ''Drive, _parse_path: ignoring event.''])
      | Some p \<Rightarrow>
          (let path_values = split CHR ''/'' p in
           if length path_values < 3 then (False, d, [])
           else (True,
                 d\<lparr> enclosure := path_values ! 0,
                    drive_num := PyStr (path_values ! 2) \<rparr>,
                 [])))"

section \<open>Outbound messages\<close>

text \<open>
  The message classes of \<open>json_msgs\<close> are kept as constructors over the arguments they
  are built from; the last field is the uuid given to \<open>set_uuid\<close>, if any.
\<close>

datatype payload =
    DriveMngrMsg string intstr "string option" "string option" "string option"
  | HPIDataMsg string "string option" "string option" "string option" "string option"
      "string option" "string option" "string option" "string option" string "string option"
  | AckResponseMsg "string option" string "string option"

definition toDriveMngrJsonMsg :: "drive \<Rightarrow> string option \<Rightarrow> payload" where
  "toDriveMngrJsonMsg d uuid =
     DriveMngrMsg (enclosure d) (drive_num d) (status d) (serialNumber d) uuid"

definition toHPIjsonMsg :: "drive \<Rightarrow> string option \<Rightarrow> payload" where
  "toHPIjsonMsg d uuid =
     HPIDataMsg (hostId d) (path d) (drawer d) (location d) (manufacturer d) (productName d)
       (productVersion d) (serialNumber d) (wwn d) (enclosure d) uuid"

text \<open>The IEM of \<open>_log_IEM\<close>: \<open>log_msg\<close> is the IEC text, \<open>json_data\<close> what follows the colon.\<close>

record json_data =
  enclosure_serial_number :: string
  disk_serial_number :: "string option"
  slot :: intstr
  iem_status :: string
  iem_reason :: string

record logging_request =
  log_level :: string
  log_type :: string
  log_msg :: string
  log_data :: json_data

datatype out_msg =
    RabbitMQegressProcessor payload
  | LoggingMsgHandler logging_request

section \<open>class DiskMsgHandler\<close>

text \<open>
  A Python dict is an association list with distinct keys whose order is the order of
  iteration: assigning to a key that is present keeps its place, a new key goes last
  (\<open>AList.update\<close>). \<open>d.get(k)\<close> is \<open>map_of d k\<close>. CPython 2 puts a new
  key at its hash slot instead, so where a new key lands in the iteration may differ;
  the statements below take the order of the view as it is, or read the view through
  \<open>map_of\<close>, and none depends on where a new key lands.
\<close>

type_synonym drives = "(string option \<times> drive) list"

record drives_entry =
  e_serial_number :: "string option"
  e_status :: string
  e_reason :: string

record report =
  last_update_time :: string
  report_drives :: "drives_entry list"

text \<open>
  The handler's fields, the report file (\<open>None\<close> until first written), the internal
  message queue writes in order, and the logger.
\<close>

record state =
  host_id :: string
  drvmngr_drives :: drives
  hpi_drives :: drives
  dmreport_file :: "report option"
  msgQ :: "out_msg list"
  logger :: "log_entry list"

definition initialize :: "string \<Rightarrow> state" where
  "initialize h =
     \<lparr> host_id = h, drvmngr_drives = [], hpi_drives = [], dmreport_file = None,
       msgQ = [], logger = [] \<rparr>"

definition write_internal_msgQ :: "out_msg \<Rightarrow> state \<Rightarrow> state" where
  "write_internal_msgQ m s = s\<lparr> msgQ := msgQ s @ [m] \<rparr>"

definition log :: "log_entry \<Rightarrow> state \<Rightarrow> state" where
  "log e s = s\<lparr> logger := logger s @ [e] \<rparr>"

text \<open>\<open>status, reason = str(drive.get_drive_status()).split("_", 1)\<close>\<close>

definition split_status :: "drive \<Rightarrow> exn + (string \<times> string)" where
  "split_status d = unpack2 (split1 CHR ''_'' (str (status d)))"

text \<open>The loop of \<open>_serialize_disk_status\<close>: the first failing record ends it.\<close>

fun drives_list :: "drives \<Rightarrow> exn + drives_entry list" where
  "drives_list [] = Inr []"
| "drives_list ((serial_num, d) # rest) =
     (case split_status d of
        Inl e \<Rightarrow> Inl e
      | Inr (st, reason) \<Rightarrow>
          (case drives_list rest of
             Inl e \<Rightarrow> Inl e
           | Inr es \<Rightarrow>
               Inr (\<lparr> e_serial_number = serialNumber d, e_status = st, e_reason = reason \<rparr> # es)))"

text \<open>
  \<open>_serialize_disk_status\<close>: \<open>now\<close> is \<open>time.strftime("%c")\<close>. The file is opened
  after the loop, so an exception in the loop leaves the file as it was; the
  \<open>except\<close> logs it and returns.
\<close>

definition serialize_disk_status :: "string \<Rightarrow> state \<Rightarrow> state" where
  "serialize_disk_status now s =
     (case drives_list (drvmngr_drives s) of
        Inl e \<Rightarrow> log (LogException ''_serialize_disk_status'') s
      | Inr es \<Rightarrow> s\<lparr> dmreport_file := Some \<lparr> last_update_time = now, report_drives = es \<rparr> \<rparr>)"

text \<open>
  The \<open>if\<close>/\<open>elif\<close> chain of \<open>_log_IEM\<close>: \<open>None\<close> where no branch assigns
  \<open>log_msg\<close>.
\<close>

definition iem_log_msg :: "string \<Rightarrow> string \<Rightarrow> string option" where
  "iem_log_msg st reason =
     (if lower st = ''empty'' \<or> lower st = ''unused'' then
        Some ''IEC: 020001002: Drive removed''
      else if lower st = ''ok'' \<or> lower st = ''inuse'' then
        Some ''IEC: 020001001: Drive added''
      else if lower st = ''failed'' then
        (if contains (lower reason) ''smart'' then
           Some ''IEC: 020002002: SMART validation test has failed''
         else
           Some (''IEC: 000000000: Attempting to log unknown disk status/reason: ''
                 @ st @ ''/'' @ reason))
      else None)"

definition log_IEM :: "drive \<Rightarrow> state \<Rightarrow> (exn + unit) \<times> state" where
  "log_IEM d s =
     (case split_status d of
        Inl e \<Rightarrow> (Inl e, s)
      | Inr (st, reason) \<Rightarrow>
          (case iem_log_msg st reason of
             None \<Rightarrow> (Inl (UnboundLocalError ''log_msg''), s)
           | Some m \<Rightarrow>
               (Inr (),
                write_internal_msgQ
                  (LoggingMsgHandler
                     \<lparr> log_level = ''LOG_WARNING'', log_type = ''IEM'', log_msg = m,
                       log_data =
                         \<lparr> enclosure_serial_number = enclosure d,
                           disk_serial_number = serialNumber d,
                           slot = drive_num d,
                           iem_status = st,
                           iem_reason = reason \<rparr> \<rparr>)
                  s)))"

section \<open>\_process\_msg\<close>

text \<open>
  The inbound message after \<open>json.loads\<close>: a dict read only through \<open>get\<close>.
\<close>

type_synonym jsonMsg = "string \<Rightarrow> string option"

definition log_all :: "log_entry list \<Rightarrow> state \<Rightarrow> state" where
  "log_all es s = s\<lparr> logger := logger s @ es \<rparr>"

text \<open>
  The \<open>try\<close> of the object\_path branch: \<open>self._hpi_drives[serial_number]\<close> raises
  KeyError, and adding the integer \<open>-1\<close> to a string raises TypeError.
\<close>

definition hpi_event_path :: "drives \<Rightarrow> string option \<Rightarrow> exn + string" where
  "hpi_event_path hpi serial_number =
     (case map_of hpi serial_number of
        None \<Rightarrow> Inl KeyError
      | Some hpi_drive \<Rightarrow>
          (case drive_num hpi_drive of
             PyInt _ \<Rightarrow> Inl TypeError
           | PyStr n \<Rightarrow> Inr (enclosure hpi_drive @ ''/disk/'' @ n @ ''/status'')))"

text \<open>
  Lines 121-170: the Drive of a drivemanager event, or \<open>Inl\<close> where the handler
  returns early.
\<close>

definition drivemanager_drive :: "jsonMsg \<Rightarrow> state \<Rightarrow> state + (drive \<times> state)" where
  "drivemanager_drive jsonMsg s =
     (let serial_number = jsonMsg ''serial_number'' in
      if jsonMsg ''event_path'' \<noteq> None then
        (case parse_drive_mngr_path
                (Drive4 (host_id s) (jsonMsg ''event_path'') (jsonMsg ''status'') serial_number) of
           (valid, d, lg) \<Rightarrow>
             if \<not> valid then
               Inl (log (LogError ''_process_msg, event_path valid: False (ignoring)'')
                      (log_all lg s))
             else Inr (d, log_all lg s))
      else if jsonMsg ''object_path'' \<noteq> None then
        (let (event_path, s1) =
               (case hpi_event_path (hpi_drives s) serial_number of
                  Inl ae \<Rightarrow>
                    (''HPIdataNotAvailable/disk/-1/status'',
                     log (LogInfo ''_process_msg, No HPI data for serial number'') s)
                | Inr p \<Rightarrow> (p, s))
         in case parse_drive_mngr_path
                   (Drive4 (host_id s) (Some event_path) (jsonMsg ''status'') serial_number) of
              (valid, d, lg) \<Rightarrow>
                if \<not> valid then
                  Inl (log (LogError ''_process_msg, object_path valid: False (ignoring)'')
                         (log_all lg s1))
                else Inr (d, log_all lg s1))
      else Inl s)"

text \<open>
  Lines 179-183: the IEM is logged when the serial number has a stored drive whose
  status differs from the new one.
\<close>

definition status_changed :: "drives \<Rightarrow> string option \<Rightarrow> drive \<Rightarrow> bool" where
  "status_changed dm serial_number d =
     (case map_of dm serial_number of
        None \<Rightarrow> False
      | Some old \<Rightarrow> status old \<noteq> status d)"

definition disk_status_drivemanager ::
  "string \<Rightarrow> jsonMsg \<Rightarrow> state \<Rightarrow> (exn + unit) \<times> state" where
  "disk_status_drivemanager now jsonMsg s =
     (let serial_number = jsonMsg ''serial_number'' in
      case drivemanager_drive jsonMsg s of
        Inl s' \<Rightarrow> (Inr (), s')
      | Inr (d, s1) \<Rightarrow>
          (let s2 = write_internal_msgQ (RabbitMQegressProcessor (toDriveMngrJsonMsg d None)) s1
           in case (if status_changed (drvmngr_drives s2) serial_number d
                    then log_IEM d s2 else (Inr (), s2)) of
                (Inl e, s3) \<Rightarrow> (Inl e, s3)
              | (Inr _, s3) \<Rightarrow>
                  (Inr (),
                   serialize_disk_status now
                     (s3\<lparr> drvmngr_drives := AList.update serial_number d (drvmngr_drives s3) \<rparr>))))"

definition disk_status_hpi :: "string \<Rightarrow> jsonMsg \<Rightarrow> state \<Rightarrow> (exn + unit) \<times> state" where
  "disk_status_hpi now jsonMsg s =
     (case parse_hpi_path
             (Drive (host_id s) (jsonMsg ''event_path'') (jsonMsg ''status'')
                (jsonMsg ''serialNumber'') (jsonMsg ''drawer'') (jsonMsg ''location'')
                (jsonMsg ''manufacturer'') (jsonMsg ''productName'')
                (jsonMsg ''productVersion'') (jsonMsg ''wwn'')) of
        (valid, d, lg) \<Rightarrow>
          if \<not> valid then
            (Inr (), log (LogError ''_process_msg, valid: False (ignoring)'') (log_all lg s))
          else
            (let serial_number = jsonMsg ''serialNumber'';
                 s1 = (log_all lg s)\<lparr> hpi_drives := AList.update serial_number d (hpi_drives s) \<rparr>
             in case drive_num d of
                  PyInt _ \<Rightarrow> (Inl TypeError, s1)
                | PyStr n \<Rightarrow>
                    (case parse_drive_mngr_path
                            (Drive4 (host_id s) (Some (enclosure d @ ''/disk/'' @ n @ ''/status''))
                               (jsonMsg ''status'') serial_number) of
                       (valid2, drv_mngr_drive, lg2) \<Rightarrow>
                         if \<not> valid2 then
                           (Inr (),
                            log (LogError
                                   ''_process_msg, parse_drive_mngr_path, valid: False (ignoring)'')
                              (log_all lg2 s1))
                         else
                           (let s2 = log_all lg2 s1;
                                s3 = serialize_disk_status now
                                       (s2\<lparr> drvmngr_drives :=
                                              AList.update serial_number drv_mngr_drive
                                                (drvmngr_drives s2) \<rparr>)
                            in (Inr (),
                                write_internal_msgQ
                                  (RabbitMQegressProcessor (toHPIjsonMsg d None)) s3)))))"

text \<open>
  Lines 271-275: \<open>drive.get_drive_status().lower()\<close> raises AttributeError on
  \<open>None\<close>.
\<close>

definition smart_response :: "drive \<Rightarrow> exn + string" where
  "smart_response d =
     (case status d of
        None \<Rightarrow> Inl AttributeError
      | Some st \<Rightarrow>
          Inr (if lower st = ''inuse_ok'' \<or> lower st = ''ok_none'' then ''Passed''
               else ''Failed''))"

text \<open>The loop of lines 268-284 over the drives in iteration order.\<close>

fun smart_test_all ::
  "drives \<Rightarrow> string option \<Rightarrow> string option \<Rightarrow> state \<Rightarrow> (exn + unit) \<times> state" where
  "smart_test_all [] node_request uuid s = (Inr (), s)"
| "smart_test_all ((serial_number, d) # rest) node_request uuid s =
     (case smart_response d of
        Inl e \<Rightarrow> (Inl e, s)
      | Inr response \<Rightarrow>
          smart_test_all rest node_request uuid
            (write_internal_msgQ
               (RabbitMQegressProcessor
                  (AckResponseMsg
                     (Some (''SMART_TEST: serial number: '' @ str (serialNumber d)
                            @ '', IP: '' @ str node_request))
                     response uuid))
               s))"

definition disk_smart_test ::
  "string option \<Rightarrow> string option \<Rightarrow> string option \<Rightarrow> state \<Rightarrow> (exn + unit) \<times> state" where
  "disk_smart_test serial_number node_request uuid s =
     (if serial_number = Some ''*'' then
        smart_test_all (drvmngr_drives s) node_request uuid s
      else
        (case (case map_of (drvmngr_drives s) serial_number of
                 Some d \<Rightarrow> smart_response d
               | None \<Rightarrow>
                   Inr (''Error: SMART results not yet available for drive, ''
                        @ ''please try again later.'')) of
           Inl e \<Rightarrow> (Inl e, s)
         | Inr response \<Rightarrow>
             (Inr (),
              write_internal_msgQ
                (RabbitMQegressProcessor (AckResponseMsg node_request response uuid)) s)))"

text \<open>
  Lines 303-339. \<open>self._drvmngr_drives[serial_number]\<close> raises KeyError on a missing
  key; the dict holds Drive objects only, so the test \<open>is not None\<close> holds for every
  key that is present and the last \<open>else\<close> (line 335) is never taken.
\<close>

definition drvmngr_status ::
  "string option \<Rightarrow> string option \<Rightarrow> string option \<Rightarrow> state \<Rightarrow> (exn + unit) \<times> state" where
  "drvmngr_status serial_number node_request uuid s =
     (if serial_number = Some ''*'' then
        (Inr (),
         write_internal_msgQ
           (RabbitMQegressProcessor
              (AckResponseMsg node_request ''All Drive manager data sent successfully'' uuid))
           (foldl (\<lambda>s' (k, d).
                     write_internal_msgQ (RabbitMQegressProcessor (toDriveMngrJsonMsg d uuid)) s')
              s (drvmngr_drives s)))
      else
        (case map_of (drvmngr_drives s) serial_number of
           None \<Rightarrow> (Inl KeyError, s)
         | Some d \<Rightarrow>
             (Inr (),
              write_internal_msgQ
                (RabbitMQegressProcessor
                   (AckResponseMsg node_request ''Drive manager data sent successfully'' uuid))
                (write_internal_msgQ (RabbitMQegressProcessor (toDriveMngrJsonMsg d uuid)) s))))"

text \<open>Lines 341-377, the same over \<open>self._hpi_drives\<close>.\<close>

definition hpi_status ::
  "string option \<Rightarrow> string option \<Rightarrow> string option \<Rightarrow> state \<Rightarrow> (exn + unit) \<times> state" where
  "hpi_status serial_number node_request uuid s =
     (if serial_number = Some ''*'' then
        (Inr (),
         write_internal_msgQ
           (RabbitMQegressProcessor
              (AckResponseMsg node_request ''All HPI data sent successfully'' uuid))
           (foldl (\<lambda>s' (k, d).
                     write_internal_msgQ (RabbitMQegressProcessor (toHPIjsonMsg d uuid)) s')
              s (hpi_drives s)))
      else
        (case map_of (hpi_drives s) serial_number of
           None \<Rightarrow> (Inl KeyError, s)
         | Some d \<Rightarrow>
             (Inr (),
              write_internal_msgQ
                (RabbitMQegressProcessor
                   (AckResponseMsg node_request ''Drive manager data sent successfully'' uuid))
                (write_internal_msgQ (RabbitMQegressProcessor (toHPIjsonMsg d uuid)) s))))"

text \<open>
  \<open>_process_msg\<close>. \<open>node_request\<close> and \<open>uuid\<close> are assigned in the request branch
  only (lines 259-262), so reading \<open>node_request\<close> at line 384 raises
  UnboundLocalError, after the warning of line 380.
\<close>

definition process_msg :: "string \<Rightarrow> jsonMsg \<Rightarrow> state \<Rightarrow> (exn + unit) \<times> state" where
  "process_msg now jsonMsg s =
     (if jsonMsg ''sensor_response_type'' \<noteq> None then
        (let sensor_response_type = jsonMsg ''sensor_response_type'' in
         if sensor_response_type = Some ''disk_status_drivemanager'' then
           disk_status_drivemanager now jsonMsg s
         else if sensor_response_type = Some ''disk_status_hpi'' then
           disk_status_hpi now jsonMsg s
         else (Inr (), log (LogWarn ''DiskMsgHandler, received unknown msg'') s))
      else if jsonMsg ''sensor_request_type'' \<noteq> None then
        (let sensor_request_type = jsonMsg ''sensor_request_type'';
             serial_number = jsonMsg ''serial_number'';
             node_request = jsonMsg ''node_request'';
             uuid = jsonMsg ''uuid''
         in if sensor_request_type = Some ''disk_smart_test'' then
              disk_smart_test serial_number node_request uuid s
            else if sensor_request_type = Some ''drvmngr_status'' then
              drvmngr_status serial_number node_request uuid s
            else if sensor_request_type = Some ''hpi_status'' then
              hpi_status serial_number node_request uuid s
            else (Inr (), s))
      else
        (Inl (UnboundLocalError ''node_request''),
         log (LogWarn ''DiskMsgHandler, received unknown msg'') s))"

text \<open>
  \<open>run\<close> over the messages of the queue, each with the clock reading at its arrival:
  an exception of \<open>_process_msg\<close> is logged and the handler goes on with the state as
  the failed call left it.
\<close>

fun run :: "(string \<times> jsonMsg) list \<Rightarrow> state \<Rightarrow> state" where
  "run [] s = s"
| "run ((now, jsonMsg) # rest) s =
     (case process_msg now jsonMsg s of
        (Inl e, s') \<Rightarrow> run rest (log (LogException ''DiskMsgHandler restarting'') s')
      | (Inr _, s') \<Rightarrow> run rest s')"

text \<open>The IEMs written to the logging handler, in order.\<close>

definition iems :: "state \<Rightarrow> logging_request list" where
  "iems s = concat (map (\<lambda>m. case m of LoggingMsgHandler r \<Rightarrow> [r] | _ \<Rightarrow> []) (msgQ s))"

text \<open>\<open>sep.join(segments)\<close>, to say what \<open>split\<close> computes.\<close>

fun join :: "char \<Rightarrow> string list \<Rightarrow> string" where
  "join sep [] = []"
| "join sep [s] = s"
| "join sep (s # t # ts) = s @ sep # join sep (t # ts)"

text \<open>The message \<open>_log_IEM\<close> writes to the logging handler.\<close>

definition iem :: "string \<Rightarrow> drive \<Rightarrow> string \<Rightarrow> string \<Rightarrow> out_msg" where
  "iem m d st reason =
     LoggingMsgHandler
       \<lparr> log_level = ''LOG_WARNING'', log_type = ''IEM'', log_msg = m,
         log_data = \<lparr> enclosure_serial_number = enclosure d, disk_serial_number = serialNumber d,
                      slot = drive_num d, iem_status = st, iem_reason = reason \<rparr> \<rparr>"

text \<open>
  A drivemanager event passes the path check of lines 125-170 when its event path has
  at least four segments or, without an event path, it has an object path.
\<close>

definition event_path_ok :: "jsonMsg \<Rightarrow> bool" where
  "event_path_ok jsonMsg =
     (case jsonMsg ''event_path'' of
        Some p \<Rightarrow> 4 \<le> length (split CHR ''/'' p)
      | None \<Rightarrow> jsonMsg ''object_path'' \<noteq> None)"

text \<open>The states that \<open>_log_IEM\<close> knows, in lower case.\<close>

definition known_states :: "string set" where
  "known_states = {''empty'', ''unused'', ''ok'', ''inuse'', ''failed''}"

text \<open>The report entry of a drive whose status has a separator, and its re-joining.\<close>

definition drives_entry_of :: "drive \<Rightarrow> drives_entry" where
  "drives_entry_of d =
     \<lparr> e_serial_number = serialNumber d,
       e_status = takeWhile (\<lambda>c. c \<noteq> CHR ''_'') (str (status d)),
       e_reason = tl (dropWhile (\<lambda>c. c \<noteq> CHR ''_'') (str (status d))) \<rparr>"

definition rejoin :: "drives_entry \<Rightarrow> string" where
  "rejoin e = e_status e @ ''_'' @ e_reason e"

text \<open>A drivemanager event with an event path, as the handler receives it.\<close>

definition drivemanager_event :: "string \<Rightarrow> string \<Rightarrow> string \<Rightarrow> jsonMsg" where
  "drivemanager_event p st sn =
     [''sensor_response_type'' \<mapsto> ''disk_status_drivemanager'',
      ''event_path'' \<mapsto> p, ''status'' \<mapsto> st, ''serial_number'' \<mapsto> sn]"

text \<open>
  An HPI event passes \<open>parse_hpi_path\<close> when its event path has at least three
  segments. Its Drive as stored in \<open>_hpi_drives\<close>, and the Drive built from it at
  lines 221-229 for \<open>_drvmngr_drives\<close>.
\<close>

definition hpi_path_ok :: "jsonMsg \<Rightarrow> bool" where
  "hpi_path_ok jsonMsg =
     (case jsonMsg ''event_path'' of
        Some p \<Rightarrow> 3 \<le> length (split CHR ''/'' p)
      | None \<Rightarrow> False)"

definition hpi_record :: "string \<Rightarrow> jsonMsg \<Rightarrow> drive" where
  "hpi_record h jsonMsg =
     (Drive h (jsonMsg ''event_path'') (jsonMsg ''status'')
        (jsonMsg ''serialNumber'') (jsonMsg ''drawer'') (jsonMsg ''location'')
        (jsonMsg ''manufacturer'') (jsonMsg ''productName'')
        (jsonMsg ''productVersion'') (jsonMsg ''wwn''))
     \<lparr> enclosure := split CHR ''/'' (str (jsonMsg ''event_path'')) ! 0,
        drive_num := PyStr (split CHR ''/'' (str (jsonMsg ''event_path'')) ! 2) \<rparr>"

definition synthesized_record :: "string \<Rightarrow> jsonMsg \<Rightarrow> drive" where
  "synthesized_record h jsonMsg =
     (Drive4 h
        (Some (split CHR ''/'' (str (jsonMsg ''event_path'')) ! 0 @ ''/disk/''
               @ split CHR ''/'' (str (jsonMsg ''event_path'')) ! 2 @ ''/status''))
        (jsonMsg ''status'') (jsonMsg ''serialNumber''))
     \<lparr> enclosure := split CHR ''/'' (str (jsonMsg ''event_path'')) ! 0,
        drive_num := PyStr (split CHR ''/'' (str (jsonMsg ''event_path'')) ! 2),
        filename := ''status'' \<rparr>"

text \<open>An HPI event as the handler receives it.\<close>

definition hpi_event :: "string \<Rightarrow> string \<Rightarrow> string \<Rightarrow> jsonMsg" where
  "hpi_event p st sn =
     [''sensor_response_type'' \<mapsto> ''disk_status_hpi'',
      ''event_path'' \<mapsto> p, ''status'' \<mapsto> st, ''serialNumber'' \<mapsto> sn]"

text \<open>Two states with the same host, stores and IEMs sent.\<close>

definition same_views :: "state \<Rightarrow> state \<Rightarrow> bool" where
  "same_views s s' \<longleftrightarrow>
     host_id s' = host_id s \<and> drvmngr_drives s' = drvmngr_drives s
     \<and> hpi_drives s' = hpi_drives s \<and> iems s' = iems s"

section \<open>Strings\<close>

lemma split_nonempty: "split sep s \<noteq> []"
  by (induction s) (auto split: list.splits)

lemma split_join: "join sep (split sep s) = s"
proof (induction s)
  case Nil
  show ?case by simp
next
  case (Cons c cs)
  obtain seg segs where sp: "split sep cs = seg # segs"
    using split_nonempty [of sep cs] by (cases "split sep cs") auto
  show ?case
  proof (cases "c = sep")
    case True
    with Cons sp show ?thesis by simp
  next
    case False
    with Cons sp show ?thesis by (cases segs) auto
  qed
qed

lemma split_no_sep: "seg \<in> set (split sep s) \<Longrightarrow> sep \<notin> set seg"
  by (induction s arbitrary: seg) (auto split: if_splits list.splits)

lemma split1_cases:
  "split1 sep s = (if sep \<in> set s then [takeWhile (\<lambda>c. c \<noteq> sep) s, tl (dropWhile (\<lambda>c. c \<noteq> sep) s)] else [s])"
proof (cases "sep \<in> set s")
  case True
  then have "dropWhile (\<lambda>c. c \<noteq> sep) s \<noteq> []" by simp
  with True show ?thesis by (cases "dropWhile (\<lambda>c. c \<noteq> sep) s") (simp_all add: split1_def)
next
  case False
  then have "dropWhile (\<lambda>c. c \<noteq> sep) s = []" by auto
  then show ?thesis using False by (simp add: split1_def del: dropWhile_eq_Nil_conv)
qed

lemma split_status_Inr_iff:
  "split_status d = Inr (st, reason) \<longleftrightarrow>
     str (status d) = st @ CHR ''_'' # reason \<and> CHR ''_'' \<notin> set st"
proof
  assume a: "split_status d = Inr (st, reason)"
  let ?s = "str (status d)"
  from a have mem: "CHR ''_'' \<in> set ?s"
    by (auto simp: split_status_def split1_cases split: if_splits)
  with a have st: "st = takeWhile (\<lambda>c. c \<noteq> CHR ''_'') ?s"
    and re: "reason = tl (dropWhile (\<lambda>c. c \<noteq> CHR ''_'') ?s)"
    by (auto simp: split_status_def split1_cases)
  from mem have "hd (dropWhile (\<lambda>c. c \<noteq> CHR ''_'') ?s) = CHR ''_''"
    using hd_dropWhile [of "\<lambda>c. c \<noteq> CHR ''_''" ?s] by simp
  moreover from mem have "dropWhile (\<lambda>c. c \<noteq> CHR ''_'') ?s \<noteq> []"
    by simp
  ultimately have "dropWhile (\<lambda>c. c \<noteq> CHR ''_'') ?s = CHR ''_'' # reason"
    using re by (cases "dropWhile (\<lambda>c. c \<noteq> CHR ''_'') ?s") auto
  then have "?s = st @ CHR ''_'' # reason"
    using st takeWhile_dropWhile_id [of "\<lambda>c. c \<noteq> CHR ''_''" ?s] by simp
  moreover have "CHR ''_'' \<notin> set st"
    using st by (auto dest: set_takeWhileD)
  ultimately show "str (status d) = st @ CHR ''_'' # reason \<and> CHR ''_'' \<notin> set st" by simp
next
  assume a: "str (status d) = st @ CHR ''_'' # reason \<and> CHR ''_'' \<notin> set st"
  then have "takeWhile (\<lambda>c. c \<noteq> CHR ''_'') (str (status d)) = st"
    and "dropWhile (\<lambda>c. c \<noteq> CHR ''_'') (str (status d)) = CHR ''_'' # reason"
    by (auto simp: takeWhile_tail dropWhile_append3)
  then show "split_status d = Inr (st, reason)"
    by (simp add: split_status_def split1_def)
qed

lemma split_status_Inl_iff:
  "(\<exists>e. split_status d = Inl e) \<longleftrightarrow> CHR ''_'' \<notin> set (str (status d))"
  by (auto simp: split_status_def split1_cases)

lemma split_status_Inl: "split_status d = Inl e \<Longrightarrow> e = ValueError"
  by (auto simp: split_status_def split1_cases split: if_splits)

lemma startswith_iff: "startswith s p \<longleftrightarrow> (\<exists>ss. s = p @ ss)"
  by (induction s p rule: startswith.induct) auto

lemma contains_iff: "contains s sub \<longleftrightarrow> (\<exists>ps ss. s = ps @ sub @ ss)"
proof (induction s)
  case Nil
  show ?case by auto
next
  case (Cons c cs)
  show ?case
  proof
    assume "contains (c # cs) sub"
    then consider "startswith (c # cs) sub" | "contains cs sub" by auto
    then show "\<exists>ps ss. c # cs = ps @ sub @ ss"
    proof cases
      case 1
      then obtain ss where "c # cs = sub @ ss" by (auto simp: startswith_iff)
      then have "c # cs = [] @ sub @ ss" by simp
      then show ?thesis by blast
    next
      case 2
      with Cons obtain ps ss where "cs = ps @ sub @ ss" by blast
      then have "c # cs = (c # ps) @ sub @ ss" by simp
      then show ?thesis by blast
    qed
  next
    assume "\<exists>ps ss. c # cs = ps @ sub @ ss"
    then obtain ps ss where e: "c # cs = ps @ sub @ ss" by blast
    show "contains (c # cs) sub"
    proof (cases ps)
      case Nil
      with e have "startswith (c # cs) sub" by (auto simp: startswith_iff)
      then show ?thesis by simp
    next
      case (Cons p ps')
      with e have "cs = ps' @ sub @ ss" by simp
      with Cons.IH have "contains cs sub" by blast
      then show ?thesis by simp
    qed
  qed
qed

lemma length_split: "length (split sep s) = Suc (length (filter (\<lambda>c. c = sep) s))"
proof (induction s)
  case Nil
  show ?case by simp
next
  case (Cons c cs)
  obtain seg segs where sp: "split sep cs = seg # segs"
    using split_nonempty [of sep cs] by (cases "split sep cs") auto
  with Cons show ?case by auto
qed

lemma synthesized_path_valid:
  "4 \<le> length (split CHR ''/'' (enc @ ''/disk/'' @ n @ ''/status''))"
  by (simp add: length_split)

lemma split_no_sep_single: "sep \<notin> set a \<Longrightarrow> split sep a = [a]"
  by (induction a) auto

lemma split_append_sep: "sep \<notin> set a \<Longrightarrow> split sep (a @ sep # r) = a # split sep r"
  by (induction a) auto

lemma split_synthesized:
  assumes "CHR ''/'' \<notin> set enc" and "CHR ''/'' \<notin> set n"
  shows "split CHR ''/'' (enc @ ''/disk/'' @ n @ ''/status'') = [enc, ''disk'', n, ''status'']"
proof -
  have 1: "split CHR ''/'' ''status'' = [''status'']" by (rule split_no_sep_single) simp
  have 2: "split CHR ''/'' (n @ CHR ''/'' # ''status'') = [n, ''status'']"
    using split_append_sep [OF assms(2), of "''status''"] 1 by simp
  have 3: "split CHR ''/'' (''disk'' @ CHR ''/'' # n @ CHR ''/'' # ''status'') = [''disk'', n, ''status'']"
    using split_append_sep [of "CHR ''/''" "''disk''" "n @ CHR ''/'' # ''status''"] 2 by simp
  have "split CHR ''/'' (enc @ CHR ''/'' # ''disk'' @ CHR ''/'' # n @ CHR ''/'' # ''status'')
          = [enc, ''disk'', n, ''status'']"
    using split_append_sep [OF assms(1), of "''disk'' @ CHR ''/'' # n @ CHR ''/'' # ''status''"] 3
    by simp
  then show ?thesis by simp
qed

section \<open>Path parsing\<close>

text \<open>
  C4. For a path string whose split on \<open>/\<close> has at least 4 segments,
  \<open>parse_drive_mngr_path\<close> returns True and sets enclosure, drive number and filename
  to segments 0, 2 and 3; with fewer than 4 segments it returns False and leaves the
  drive as it was.
\<close>

theorem parse_drive_mngr_path_segments:
  assumes "path d = Some p"
  shows "(4 \<le> length (split CHR ''/'' p) \<longrightarrow>
            parse_drive_mngr_path d =
              (True,
               d\<lparr> enclosure := split CHR ''/'' p ! 0,
                  drive_num := PyStr (split CHR ''/'' p ! 2),
                  filename := split CHR ''/'' p ! 3 \<rparr>,
               []))
       \<and> (length (split CHR ''/'' p) < 4 \<longrightarrow> parse_drive_mngr_path d = (False, d, []))"
  using assms by (simp add: parse_drive_mngr_path_def Let_def)

theorem parse_drive_mngr_path_segments_witness:
  "parse_drive_mngr_path
     (Drive4 ''h'' (Some ''ENC1/disk/3/status'') (Some ''ok_none'') (Some ''SN1''))
     = (True,
        (Drive4 ''h'' (Some ''ENC1/disk/3/status'') (Some ''ok_none'') (Some ''SN1''))
          \<lparr> enclosure := ''ENC1'', drive_num := PyStr ''3'', filename := ''status'' \<rparr>,
        [])
   \<and> parse_drive_mngr_path (Drive4 ''h'' (Some ''ENC1/disk/3'') (Some ''ok_none'') (Some ''SN1''))
     = (False, Drive4 ''h'' (Some ''ENC1/disk/3'') (Some ''ok_none'') (Some ''SN1''), [])"
  using parse_drive_mngr_path_segments
          [of "Drive4 ''h'' (Some ''ENC1/disk/3/status'') (Some ''ok_none'') (Some ''SN1'')"
              "''ENC1/disk/3/status''"]
        parse_drive_mngr_path_segments
          [of "Drive4 ''h'' (Some ''ENC1/disk/3'') (Some ''ok_none'') (Some ''SN1'')"
              "''ENC1/disk/3''"]
  by (simp add: Drive4_def Drive_def)

section \<open>Messages that end in an exception\<close>

text \<open>
  C1. A message with neither \<open>sensor_response_type\<close> nor \<open>sensor_request_type\<close>
  should be answered with one failure ack. The code logs the warning and then raises
  UnboundLocalError at line 384, where \<open>node_request\<close> has no value: nothing is
  written to the message queue.
\<close>

theorem unknown_msg_raises:
  assumes "jsonMsg ''sensor_response_type'' = None"
      and "jsonMsg ''sensor_request_type'' = None"
  shows "process_msg now jsonMsg s
           = (Inl (UnboundLocalError ''node_request''),
              log (LogWarn ''DiskMsgHandler, received unknown msg'') s)
         \<and> msgQ (snd (process_msg now jsonMsg s)) = msgQ s"
  using assms by (simp add: process_msg_def log_def)

theorem unknown_msg_raises_witness:
  "process_msg ''t'' [''status'' \<mapsto> ''ok_none''] (initialize ''h'')
     = (Inl (UnboundLocalError ''node_request''),
        log (LogWarn ''DiskMsgHandler, received unknown msg'') (initialize ''h''))
   \<and> msgQ (snd (process_msg ''t'' [''status'' \<mapsto> ''ok_none''] (initialize ''h''))) = []"
  using unknown_msg_raises [of "[''status'' \<mapsto> ''ok_none'']" "''t''" "initialize ''h''"]
  by (simp add: initialize_def log_def)

text \<open>
  C2. A \<open>drvmngr_status\<close> or \<open>hpi_status\<close> request for a serial number other than
  \<open>*\<close> that is not in the store should be answered with one "drive not found" ack.
  The code indexes the dict at lines 321 and 359 and raises KeyError: the state is as
  before and nothing is written to the message queue.
\<close>

theorem status_request_missing_serial_raises:
  assumes "jsonMsg ''sensor_response_type'' = None"
      and "jsonMsg ''serial_number'' \<noteq> Some ''*''"
  shows "(jsonMsg ''sensor_request_type'' = Some ''drvmngr_status''
            \<and> map_of (drvmngr_drives s) (jsonMsg ''serial_number'') = None
          \<longrightarrow> process_msg now jsonMsg s = (Inl KeyError, s))
       \<and> (jsonMsg ''sensor_request_type'' = Some ''hpi_status''
            \<and> map_of (hpi_drives s) (jsonMsg ''serial_number'') = None
          \<longrightarrow> process_msg now jsonMsg s = (Inl KeyError, s))"
  using assms by (simp add: process_msg_def drvmngr_status_def hpi_status_def)

theorem status_request_missing_serial_raises_witness:
  "process_msg ''t''
     [''sensor_request_type'' \<mapsto> ''hpi_status'', ''serial_number'' \<mapsto> ''UNKNOWN'',
      ''node_request'' \<mapsto> ''X'', ''uuid'' \<mapsto> ''u1'']
     (initialize ''h'')
     = (Inl KeyError, initialize ''h'')
   \<and> process_msg ''t''
     [''sensor_request_type'' \<mapsto> ''drvmngr_status'', ''serial_number'' \<mapsto> ''UNKNOWN'',
      ''node_request'' \<mapsto> ''X'', ''uuid'' \<mapsto> ''u1'']
     (initialize ''h'')
     = (Inl KeyError, initialize ''h'')
   \<and> msgQ (initialize ''h'') = []"
  using status_request_missing_serial_raises
          [of "[''sensor_request_type'' \<mapsto> ''hpi_status'', ''serial_number'' \<mapsto> ''UNKNOWN'',
                ''node_request'' \<mapsto> ''X'', ''uuid'' \<mapsto> ''u1'']"
              "initialize ''h''" "''t''"]
        status_request_missing_serial_raises
          [of "[''sensor_request_type'' \<mapsto> ''drvmngr_status'', ''serial_number'' \<mapsto> ''UNKNOWN'',
                ''node_request'' \<mapsto> ''X'', ''uuid'' \<mapsto> ''u1'']"
              "initialize ''h''" "''t''"]
  by (simp add: initialize_def)

section \<open>Incident logging\<close>

text \<open>
  C8. When \<open>_log_IEM\<close> runs on a status that splits at its first \<open>_\<close> into state
  and reason: state empty or unused (compared in lower case) gives "Drive removed",
  ok or inuse gives "Drive added", failed with a reason containing smart (in lower case)
  gives "SMART validation test has failed", failed otherwise gives the unknown
  status/reason text with the state and reason as they are; in each case exactly one
  message, carrying enclosure, serial number, slot, status and reason, is written to the
  logging handler.
\<close>

theorem log_IEM_mapping:
  assumes "split_status d = Inr (st, reason)"
  shows "(lower st = ''empty'' \<or> lower st = ''unused'' \<longrightarrow>
            log_IEM d s = (Inr (), s\<lparr> msgQ := msgQ s @ [iem ''IEC: 020001002: Drive removed'' d st reason] \<rparr>))
       \<and> (lower st = ''ok'' \<or> lower st = ''inuse'' \<longrightarrow>
            log_IEM d s = (Inr (), s\<lparr> msgQ := msgQ s @ [iem ''IEC: 020001001: Drive added'' d st reason] \<rparr>))
       \<and> (lower st = ''failed'' \<and> contains (lower reason) ''smart'' \<longrightarrow>
            log_IEM d s = (Inr (), s\<lparr> msgQ := msgQ s @ [iem ''IEC: 020002002: SMART validation test has failed'' d st reason] \<rparr>))
       \<and> (lower st = ''failed'' \<and> \<not> contains (lower reason) ''smart'' \<longrightarrow>
            log_IEM d s = (Inr (), s\<lparr> msgQ := msgQ s @
               [iem (''IEC: 000000000: Attempting to log unknown disk status/reason: '' @ st @ ''/'' @ reason) d st reason] \<rparr>))"
  using assms by (simp add: log_IEM_def iem_log_msg_def iem_def write_internal_msgQ_def)


theorem log_IEM_mapping_witness:
  "log_IEM (Drive4 ''h'' None (Some ''EMPTY_None'') (Some ''SN1'')) (initialize ''h'')
     = (Inr (), (initialize ''h'')
          \<lparr> msgQ := [iem ''IEC: 020001002: Drive removed''
                       (Drive4 ''h'' None (Some ''EMPTY_None'') (Some ''SN1'')) ''EMPTY'' ''None''] \<rparr>)
   \<and> log_IEM (Drive4 ''h'' None (Some ''inuse_ok'') (Some ''SN1'')) (initialize ''h'')
     = (Inr (), (initialize ''h'')
          \<lparr> msgQ := [iem ''IEC: 020001001: Drive added''
                       (Drive4 ''h'' None (Some ''inuse_ok'') (Some ''SN1'')) ''inuse'' ''ok''] \<rparr>)
   \<and> log_IEM (Drive4 ''h'' None (Some ''failed_SMART_test'') (Some ''SN1'')) (initialize ''h'')
     = (Inr (), (initialize ''h'')
          \<lparr> msgQ := [iem ''IEC: 020002002: SMART validation test has failed''
                       (Drive4 ''h'' None (Some ''failed_SMART_test'') (Some ''SN1''))
                       ''failed'' ''SMART_test''] \<rparr>)
   \<and> log_IEM (Drive4 ''h'' None (Some ''failed_io'') (Some ''SN1'')) (initialize ''h'')
     = (Inr (), (initialize ''h'')
          \<lparr> msgQ := [iem ''IEC: 000000000: Attempting to log unknown disk status/reason: failed/io''
                       (Drive4 ''h'' None (Some ''failed_io'') (Some ''SN1'')) ''failed'' ''io''] \<rparr>)"
proof -
  have s1: "split_status (Drive4 ''h'' None (Some ''EMPTY_None'') (Some ''SN1''))
              = Inr (''EMPTY'', ''None'')"
    and s2: "split_status (Drive4 ''h'' None (Some ''inuse_ok'') (Some ''SN1''))
              = Inr (''inuse'', ''ok'')"
    and s3: "split_status (Drive4 ''h'' None (Some ''failed_SMART_test'') (Some ''SN1''))
              = Inr (''failed'', ''SMART_test'')"
    and s4: "split_status (Drive4 ''h'' None (Some ''failed_io'') (Some ''SN1''))
              = Inr (''failed'', ''io'')"
    by (simp_all add: split_status_def split1_def str_def Drive4_def Drive_def)
  have l: "lower ''EMPTY'' = ''empty''" "lower ''inuse'' = ''inuse''" "lower ''failed'' = ''failed''"
    "contains (lower ''SMART_test'') ''smart''" "\<not> contains (lower ''io'') ''smart''"
    by code_simp+
  show ?thesis
    using log_IEM_mapping [OF s1, of "initialize ''h''"] log_IEM_mapping [OF s2, of "initialize ''h''"]
      log_IEM_mapping [OF s3, of "initialize ''h''"] log_IEM_mapping [OF s4, of "initialize ''h''"] l
    by (simp add: initialize_def)
qed


section \<open>State changes of the helpers\<close>

lemma state_fields_simps [simp]:
  "drvmngr_drives (log e s) = drvmngr_drives s"
  "hpi_drives (log e s) = hpi_drives s"
  "host_id (log e s) = host_id s"
  "dmreport_file (log e s) = dmreport_file s"
  "msgQ (log e s) = msgQ s"
  "drvmngr_drives (log_all es s) = drvmngr_drives s"
  "hpi_drives (log_all es s) = hpi_drives s"
  "host_id (log_all es s) = host_id s"
  "dmreport_file (log_all es s) = dmreport_file s"
  "msgQ (log_all es s) = msgQ s"
  "drvmngr_drives (write_internal_msgQ m s) = drvmngr_drives s"
  "hpi_drives (write_internal_msgQ m s) = hpi_drives s"
  "host_id (write_internal_msgQ m s) = host_id s"
  "dmreport_file (write_internal_msgQ m s) = dmreport_file s"
  "msgQ (write_internal_msgQ m s) = msgQ s @ [m]"
  by (simp_all add: log_def log_all_def write_internal_msgQ_def)

lemma serialize_fields [simp]:
  "drvmngr_drives (serialize_disk_status now s) = drvmngr_drives s"
  "hpi_drives (serialize_disk_status now s) = hpi_drives s"
  "host_id (serialize_disk_status now s) = host_id s"
  "msgQ (serialize_disk_status now s) = msgQ s"
  by (simp_all add: serialize_disk_status_def split: sum.splits)

lemma log_all_Nil [simp]: "log_all [] s = s"
  by (simp add: log_all_def)

lemma ex_log_all_self [simp]: "\<exists>lg. s = log_all lg s"
  by (rule exI [of _ "[]"]) simp

lemma log_as_log_all: "log e s = log_all [e] s"
  by (simp add: log_def log_all_def)

section \<open>Drivemanager events\<close>

lemma drivemanager_drive_ok:
  assumes "event_path_ok jsonMsg"
  shows "\<exists>d lg. drivemanager_drive jsonMsg s = Inr (d, log_all lg s)
            \<and> status d = jsonMsg ''status'' \<and> serialNumber d = jsonMsg ''serial_number''"
proof (cases "jsonMsg ''event_path''")
  case (Some p)
  with assms have "4 \<le> length (split CHR ''/'' p)" by (simp add: event_path_ok_def)
  with Some show ?thesis
    by (auto simp: drivemanager_drive_def parse_drive_mngr_path_def Drive4_def Drive_def Let_def)
next
  case None
  with assms have op: "jsonMsg ''object_path'' \<noteq> None" by (simp add: event_path_ok_def)
  show ?thesis
  proof (cases "hpi_event_path (hpi_drives s) (jsonMsg ''serial_number'')")
    case (Inl e)
    with None op show ?thesis
      by (auto simp: drivemanager_drive_def parse_drive_mngr_path_def Drive4_def Drive_def Let_def
            log_as_log_all)
  next
    case (Inr p)
    then obtain enc n where p: "p = enc @ ''/disk/'' @ n @ ''/status''"
      by (auto simp: hpi_event_path_def split: option.splits intstr.splits)
    have "4 \<le> length (split CHR ''/'' p)" unfolding p by (rule synthesized_path_valid)
    moreover have "s = log_all [] s" by simp
    ultimately show ?thesis using None op Inr
      by (auto simp: drivemanager_drive_def parse_drive_mngr_path_def Drive4_def Drive_def Let_def)
  qed
qed

lemma drivemanager_drive_not_ok:
  assumes "\<not> event_path_ok jsonMsg"
  shows "\<exists>lg. drivemanager_drive jsonMsg s = Inl (log_all lg s)"
proof (cases "jsonMsg ''event_path''")
  case (Some p)
  with assms have "length (split CHR ''/'' p) < 4" by (simp add: event_path_ok_def)
  then show ?thesis using Some
    by (auto simp: drivemanager_drive_def parse_drive_mngr_path_def Drive4_def Drive_def Let_def
          log_as_log_all)
next
  case None
  with assms have op: "jsonMsg ''object_path'' = None" by (simp add: event_path_ok_def)
  have "s = log_all [] s" by simp
  with None op show ?thesis by (auto simp: drivemanager_drive_def)
qed


lemma iem_log_msg_None: "iem_log_msg st reason = None \<longleftrightarrow> lower st \<notin> known_states"
  by (auto simp: iem_log_msg_def known_states_def)

lemma log_IEM_raises:
  assumes "CHR ''_'' \<notin> set (str (status d))
           \<or> lower (takeWhile (\<lambda>c. c \<noteq> CHR ''_'') (str (status d))) \<notin> known_states"
  shows "log_IEM d s =
           (Inl (if CHR ''_'' \<notin> set (str (status d)) then ValueError
                 else UnboundLocalError ''log_msg''), s)"
proof (cases "split_status d")
  case (Inl e)
  then have "CHR ''_'' \<notin> set (str (status d))" using split_status_Inl_iff [of d] by blast
  with Inl split_status_Inl [OF Inl] show ?thesis by (simp add: log_IEM_def)
next
  case (Inr p)
  obtain st reason where p: "p = (st, reason)" by (cases p)
  with Inr have eq: "str (status d) = st @ CHR ''_'' # reason" and no: "CHR ''_'' \<notin> set st"
    by (simp_all add: split_status_Inr_iff)
  from eq no have tw: "takeWhile (\<lambda>c. c \<noteq> CHR ''_'') (str (status d)) = st"
    by (auto simp: takeWhile_tail)
  from eq have mem: "CHR ''_'' \<in> set (str (status d))" by simp
  with assms tw have "iem_log_msg st reason = None" by (simp add: iem_log_msg_None)
  with Inr p mem show ?thesis by (simp add: log_IEM_def)
qed

text \<open>
  C10, as amended. For a drivemanager event that passes the path check and whose serial
  number has a stored record with a different status: if the new status has no \<open>_\<close>,
  or its state in lower case is none of empty, unused, ok, inuse, failed, then
  \<open>_log_IEM\<close> raises (ValueError, or UnboundLocalError for \<open>log_msg\<close>) and
  \<open>_process_msg\<close> ends there: both stores and the report file are as before, and the
  queue holds one more message, the drive's status for the egress processor.
\<close>

theorem drivemanager_bad_status_raises:
  assumes "jsonMsg ''sensor_response_type'' = Some ''disk_status_drivemanager''"
      and "event_path_ok jsonMsg"
      and "map_of (drvmngr_drives s) (jsonMsg ''serial_number'') = Some old"
      and "status old \<noteq> jsonMsg ''status''"
      and "CHR ''_'' \<notin> set (str (jsonMsg ''status''))
           \<or> lower (takeWhile (\<lambda>c. c \<noteq> CHR ''_'') (str (jsonMsg ''status''))) \<notin> known_states"
  shows "\<exists>e s' p. process_msg now jsonMsg s = (Inl e, s')
           \<and> e = (if CHR ''_'' \<notin> set (str (jsonMsg ''status'')) then ValueError
                  else UnboundLocalError ''log_msg'')
           \<and> drvmngr_drives s' = drvmngr_drives s
           \<and> hpi_drives s' = hpi_drives s
           \<and> dmreport_file s' = dmreport_file s
           \<and> msgQ s' = msgQ s @ [RabbitMQegressProcessor p]"
proof -
  from drivemanager_drive_ok [OF assms(2), of s] obtain d lg
    where dd: "drivemanager_drive jsonMsg s = Inr (d, log_all lg s)"
      and st: "status d = jsonMsg ''status''" by blast
  let ?s2 = "write_internal_msgQ (RabbitMQegressProcessor (toDriveMngrJsonMsg d None)) (log_all lg s)"
  have ch: "status_changed (drvmngr_drives ?s2) (jsonMsg ''serial_number'') d"
    using assms(3,4) st by (simp add: status_changed_def)
  have "log_IEM d ?s2 =
          (Inl (if CHR ''_'' \<notin> set (str (jsonMsg ''status'')) then ValueError
                else UnboundLocalError ''log_msg''), ?s2)"
    using log_IEM_raises [of d ?s2] assms(5) st by simp
  with dd ch assms(1) have
    "process_msg now jsonMsg s =
       (Inl (if CHR ''_'' \<notin> set (str (jsonMsg ''status'')) then ValueError
             else UnboundLocalError ''log_msg''), ?s2)"
    by (simp add: process_msg_def disk_status_drivemanager_def Let_def)
  then show ?thesis by simp
qed


theorem drivemanager_bad_status_raises_witness:
  "process_msg ''t2'' (drivemanager_event ''ENC1/disk/3/status'' ''bogus'' ''SN42'')
     (run [(''t1'', drivemanager_event ''ENC1/disk/3/status'' ''ok_none'' ''SN42'')]
        (initialize ''h''))
   = (Inl ValueError,
      write_internal_msgQ
        (RabbitMQegressProcessor
           (DriveMngrMsg ''ENC1'' (PyStr ''3'') (Some ''bogus'') (Some ''SN42'') None))
        (run [(''t1'', drivemanager_event ''ENC1/disk/3/status'' ''ok_none'' ''SN42'')]
           (initialize ''h'')))"
proof -
  let ?m = "drivemanager_event ''ENC1/disk/3/status'' ''bogus'' ''SN42''"
  let ?s = "run [(''t1'', drivemanager_event ''ENC1/disk/3/status'' ''ok_none'' ''SN42'')]
              (initialize ''h'')"
  let ?old = "(Drive4 ''h'' (Some ''ENC1/disk/3/status'') (Some ''ok_none'') (Some ''SN42''))
                \<lparr> enclosure := ''ENC1'', drive_num := PyStr ''3'', filename := ''status'' \<rparr>"
  have h1: "?m ''sensor_response_type'' = Some ''disk_status_drivemanager''"
    by (simp add: drivemanager_event_def)
  have h2: "event_path_ok ?m" by code_simp
  have h3: "map_of (drvmngr_drives ?s) (?m ''serial_number'') = Some ?old" by code_simp
  have h4: "status ?old \<noteq> ?m ''status''" by code_simp
  have h5: "CHR ''_'' \<notin> set (str (?m ''status''))
            \<or> lower (takeWhile (\<lambda>c. c \<noteq> CHR ''_'') (str (?m ''status''))) \<notin> known_states"
    by (simp add: drivemanager_event_def str_def)
  from drivemanager_bad_status_raises [OF h1 h2 h3 h4 h5, of "''t2''"]
  obtain e s' p where r: "process_msg ''t2'' ?m ?s = (Inl e, s')"
    and e: "e = (if CHR ''_'' \<notin> set (str (?m ''status'')) then ValueError
                 else UnboundLocalError ''log_msg'')" by blast
  from e have "e = ValueError" by (simp add: drivemanager_event_def str_def)
  moreover have "snd (process_msg ''t2'' ?m ?s)
      = write_internal_msgQ
          (RabbitMQegressProcessor
             (DriveMngrMsg ''ENC1'' (PyStr ''3'') (Some ''bogus'') (Some ''SN42'') None)) ?s"
    by code_simp
  ultimately show ?thesis using r by simp
qed

text \<open>
  A drivemanager event whose path has three segments, for a serial number stored with
  another status, and with a status without separator: it is dropped at line 143, with
  no exception and nothing written to the queue.
\<close>

theorem drivemanager_bad_status_counterexample:
  "map_option status
     (map_of (drvmngr_drives
                (run [(''t1'', drivemanager_event ''ENC1/disk/3/status'' ''ok_none'' ''SN42'')]
                   (initialize ''h'')))
        (Some ''SN42''))
     = Some (Some ''ok_none'')
   \<and> process_msg ''t2'' (drivemanager_event ''ENC1/disk/3'' ''bogus'' ''SN42'')
       (run [(''t1'', drivemanager_event ''ENC1/disk/3/status'' ''ok_none'' ''SN42'')]
          (initialize ''h''))
     = (Inr (),
        log (LogError ''_process_msg, event_path valid: False (ignoring)'')
          (run [(''t1'', drivemanager_event ''ENC1/disk/3/status'' ''ok_none'' ''SN42'')]
             (initialize ''h'')))"
  by code_simp

section \<open>The durable report\<close>

lemma split_status_Inr_takeWhile:
  "split_status d = Inr (st, reason) \<Longrightarrow>
     st = takeWhile (\<lambda>c. c \<noteq> CHR ''_'') (str (status d))
     \<and> reason = tl (dropWhile (\<lambda>c. c \<noteq> CHR ''_'') (str (status d)))
     \<and> CHR ''_'' \<in> set (str (status d))"
  by (auto simp: split_status_def split1_cases split: if_splits)

lemma drives_list_Inl_iff:
  "(\<exists>e. drives_list dm = Inl e) \<longleftrightarrow> (\<exists>(k, d) \<in> set dm. CHR ''_'' \<notin> set (str (status d)))"
proof (induction dm)
  case Nil
  show ?case by simp
next
  case (Cons kd dm)
  obtain k d where kd: "kd = (k, d)" by (cases kd)
  show ?case
  proof (cases "split_status d")
    case (Inl e)
    then have "CHR ''_'' \<notin> set (str (status d))" using split_status_Inl_iff [of d] by blast
    with Inl kd show ?thesis by simp
  next
    case (Inr p)
    then have "CHR ''_'' \<in> set (str (status d))" using split_status_Inl_iff [of d] by auto
    with Inr kd Cons show ?thesis by (auto split: sum.splits prod.splits)
  qed
qed

lemma drives_list_Inr:
  "drives_list dm = Inr es \<Longrightarrow> es = map (\<lambda>(k, d). drives_entry_of d) dm"
proof (induction dm arbitrary: es)
  case Nil
  then show ?case by simp
next
  case (Cons kd dm)
  obtain k d where kd: "kd = (k, d)" by (cases kd)
  from Cons.prems kd obtain st reason es' where
    sp: "split_status d = Inr (st, reason)" and dl: "drives_list dm = Inr es'"
    and es: "es = \<lparr> e_serial_number = serialNumber d, e_status = st, e_reason = reason \<rparr> # es'"
    by (auto split: sum.splits prod.splits)
  from split_status_Inr_takeWhile [OF sp] es kd Cons.IH [OF dl]
  show ?case by (simp add: drives_entry_of_def)
qed

lemma rejoin_drives_entry_of:
  "CHR ''_'' \<in> set (str (status d)) \<Longrightarrow> rejoin (drives_entry_of d) = str (status d)"
proof -
  assume mem: "CHR ''_'' \<in> set (str (status d))"
  let ?s = "str (status d)" and ?P = "\<lambda>c. c \<noteq> CHR ''_''"
  from mem have ne: "dropWhile ?P ?s \<noteq> []" by simp
  then have "hd (dropWhile ?P ?s) = CHR ''_''" using hd_dropWhile [of ?P ?s] by simp
  with ne have "dropWhile ?P ?s = CHR ''_'' # tl (dropWhile ?P ?s)"
    by (cases "dropWhile ?P ?s") auto
  then have "takeWhile ?P ?s @ CHR ''_'' # tl (dropWhile ?P ?s) = ?s"
    using takeWhile_dropWhile_id [of ?P ?s] by simp
  then show ?thesis by (simp add: rejoin_def drives_entry_of_def)
qed

text \<open>
  C3, as amended. When some record of the drive manager view has a status without
  \<open>_\<close>, \<open>_serialize_disk_status\<close> writes nothing: the exception is caught and logged
  there, the handler goes on, and the report file is as it was before the call, with no
  entry for any record of the view.
\<close>

theorem serialize_disk_status_all_or_nothing:
  assumes "(k, d) \<in> set (drvmngr_drives s)"
      and "CHR ''_'' \<notin> set (str (status d))"
  shows "serialize_disk_status now s = log (LogException ''_serialize_disk_status'') s
         \<and> dmreport_file (serialize_disk_status now s) = dmreport_file s"
proof -
  from assms have "\<exists>(k, d) \<in> set (drvmngr_drives s). CHR ''_'' \<notin> set (str (status d))" by blast
  then obtain e where "drives_list (drvmngr_drives s) = Inl e"
    using drives_list_Inl_iff [of "drvmngr_drives s"] by blast
  then show ?thesis by (simp add: serialize_disk_status_def)
qed

theorem serialize_disk_status_all_or_nothing_witness:
  "serialize_disk_status ''t3''
     (run [(''t1'', drivemanager_event ''ENC1/disk/1/status'' ''bogus'' ''SN2''),
           (''t2'', drivemanager_event ''ENC1/disk/2/status'' ''ok_none'' ''SN1'')]
        (initialize ''h''))
   = log (LogException ''_serialize_disk_status'')
       (run [(''t1'', drivemanager_event ''ENC1/disk/1/status'' ''bogus'' ''SN2''),
             (''t2'', drivemanager_event ''ENC1/disk/2/status'' ''ok_none'' ''SN1'')]
          (initialize ''h''))"
proof -
  let ?s = "run [(''t1'', drivemanager_event ''ENC1/disk/1/status'' ''bogus'' ''SN2''),
                 (''t2'', drivemanager_event ''ENC1/disk/2/status'' ''ok_none'' ''SN1'')]
              (initialize ''h'')"
  let ?d = "(Drive4 ''h'' (Some ''ENC1/disk/1/status'') (Some ''bogus'') (Some ''SN2''))
              \<lparr> enclosure := ''ENC1'', drive_num := PyStr ''1'', filename := ''status'' \<rparr>"
  have "drvmngr_drives ?s ! 0 = (Some ''SN2'', ?d)" and "0 < length (drvmngr_drives ?s)"
    by code_simp+
  then have h1: "(Some ''SN2'', ?d) \<in> set (drvmngr_drives ?s)" by (metis nth_mem)
  have h2: "CHR ''_'' \<notin> set (str (status ?d))" by code_simp
  from serialize_disk_status_all_or_nothing [OF h1 h2, of "''t3''"] show ?thesis by simp
qed

text \<open>
  Two events from the empty stores, the first with a status without separator: the view
  holds both drives and no report has been written, so the entry of the second drive,
  whose status is well formed, is lost with the rest.
\<close>

theorem serialize_skips_record_counterexample:
  "map fst (drvmngr_drives
      (run [(''t1'', drivemanager_event ''ENC1/disk/1/status'' ''bogus'' ''SN2''),
            (''t2'', drivemanager_event ''ENC1/disk/2/status'' ''ok_none'' ''SN1'')]
         (initialize ''h'')))
     = [Some ''SN2'', Some ''SN1'']
   \<and> dmreport_file
      (run [(''t1'', drivemanager_event ''ENC1/disk/1/status'' ''bogus'' ''SN2''),
            (''t2'', drivemanager_event ''ENC1/disk/2/status'' ''ok_none'' ''SN1'')]
         (initialize ''h''))
     = None"
  by code_simp

lemma all_sep_drives_list:
  assumes "\<forall>(k, d) \<in> set dm. CHR ''_'' \<in> set (str (status d))"
  shows "\<exists>es. drives_list dm = Inr es"
proof -
  from assms have "\<not> (\<exists>e. drives_list dm = Inl e)"
    using drives_list_Inl_iff [of dm] by blast
  then show ?thesis by (cases "drives_list dm") auto
qed

text \<open>
  C6, as amended. For a drive manager view in which every stored status has a \<open>_\<close>,
  \<open>_serialize_disk_status\<close> writes the report, its entries are those of the drives of
  the view, in order, and re-joining an entry as status, \<open>_\<close>, reason gives back the
  stored status string of its drive. (With a status without \<open>_\<close> in the view nothing
  is written and the file keeps its previous content.)
\<close>

theorem report_roundtrip:
  assumes "\<forall>(k, d) \<in> set (drvmngr_drives s). CHR ''_'' \<in> set (str (status d))"
  shows "\<exists>es. dmreport_file (serialize_disk_status now s)
                = Some \<lparr> last_update_time = now, report_drives = es \<rparr>
           \<and> map rejoin es = map (\<lambda>(k, d). str (status d)) (drvmngr_drives s)
           \<and> map e_serial_number es = map (\<lambda>(k, d). serialNumber d) (drvmngr_drives s)"
proof -
  from all_sep_drives_list [OF assms] obtain es
    where dl: "drives_list (drvmngr_drives s) = Inr es" by blast
  then have es: "es = map (\<lambda>(k, d). drives_entry_of d) (drvmngr_drives s)"
    by (rule drives_list_Inr)
  have "map rejoin es = map (\<lambda>(k, d). str (status d)) (drvmngr_drives s)"
    unfolding es using assms by (auto simp: rejoin_drives_entry_of)
  moreover have "map e_serial_number es = map (\<lambda>(k, d). serialNumber d) (drvmngr_drives s)"
    unfolding es by (auto simp: drives_entry_of_def)
  ultimately show ?thesis using dl by (simp add: serialize_disk_status_def)
qed

theorem report_roundtrip_witness:
  "map rejoin
     (report_drives
        (the (dmreport_file
                (serialize_disk_status ''t3''
                   (run [(''t1'', drivemanager_event ''ENC1/disk/1/status'' ''ok_none'' ''SN2''),
                         (''t2'', drivemanager_event ''ENC1/disk/2/status'' ''failed_smart_test''
                                   ''SN1'')]
                      (initialize ''h''))))))
     = [''ok_none'', ''failed_smart_test'']"
proof -
  let ?s = "run [(''t1'', drivemanager_event ''ENC1/disk/1/status'' ''ok_none'' ''SN2''),
                 (''t2'', drivemanager_event ''ENC1/disk/2/status'' ''failed_smart_test'' ''SN1'')]
              (initialize ''h'')"
  have h: "\<forall>(k, d) \<in> set (drvmngr_drives ?s). CHR ''_'' \<in> set (str (status d))"
    by code_simp
  have v: "map (\<lambda>(k, d). str (status d)) (drvmngr_drives ?s) = [''ok_none'', ''failed_smart_test'']"
    by code_simp
  from report_roundtrip [OF h, of "''t3''"] obtain es
    where "dmreport_file (serialize_disk_status ''t3'' ?s)
             = Some \<lparr> last_update_time = ''t3'', report_drives = es \<rparr>"
      and "map rejoin es = map (\<lambda>(k, d). str (status d)) (drvmngr_drives ?s)" by blast
  with v show ?thesis by simp
qed

text \<open>
  Events SN1 ok\_none, SN2 bogus, SN1 failed\_smart: the view holds SN1 with the status
  failed\_smart, which has a separator, but the last two writes were abandoned because
  of SN2, and the report on disk is the one of the first event: its entry for SN1
  re-joins to ok\_none.
\<close>

theorem report_roundtrip_counterexample:
  "map_option status
     (map_of (drvmngr_drives
                (run [(''t1'', drivemanager_event ''ENC1/disk/1/status'' ''ok_none'' ''SN1''),
                      (''t2'', drivemanager_event ''ENC1/disk/2/status'' ''bogus'' ''SN2''),
                      (''t3'', drivemanager_event ''ENC1/disk/1/status'' ''failed_smart'' ''SN1'')]
                   (initialize ''h'')))
        (Some ''SN1''))
     = Some (Some ''failed_smart'')
   \<and> dmreport_file
       (run [(''t1'', drivemanager_event ''ENC1/disk/1/status'' ''ok_none'' ''SN1''),
             (''t2'', drivemanager_event ''ENC1/disk/2/status'' ''bogus'' ''SN2''),
             (''t3'', drivemanager_event ''ENC1/disk/1/status'' ''failed_smart'' ''SN1'')]
          (initialize ''h''))
     = Some \<lparr> last_update_time = ''t1'',
              report_drives =
                [\<lparr> e_serial_number = Some ''SN1'', e_status = ''ok'', e_reason = ''none'' \<rparr>] \<rparr>
   \<and> rejoin \<lparr> e_serial_number = Some ''SN1'', e_status = ''ok'', e_reason = ''none'' \<rparr>
     = ''ok_none''"
  by code_simp

text \<open>
  C7, as amended. The report, when it is written, has one entry for each record of the
  drive manager view, in the order in which the dict is iterated; the entries are not
  sorted by serial number (\<open>sort_keys\<close> orders the field names inside each JSON
  object, not the list under \<open>drives\<close>). The same view, iterated in the same order,
  gives the same entries in the same order.
\<close>

theorem report_in_iteration_order:
  assumes "drives_list (drvmngr_drives s) = Inr es"
  shows "dmreport_file (serialize_disk_status now s)
           = Some \<lparr> last_update_time = now,
                    report_drives = map (\<lambda>(k, d). drives_entry_of d) (drvmngr_drives s) \<rparr>"
  using assms drives_list_Inr [OF assms] by (simp add: serialize_disk_status_def)

theorem report_in_iteration_order_witness:
  "dmreport_file
     (serialize_disk_status ''t3''
        (run [(''t1'', drivemanager_event ''ENC1/disk/1/status'' ''ok_none'' ''SN2''),
              (''t2'', drivemanager_event ''ENC1/disk/2/status'' ''empty_none'' ''SN1'')]
           (initialize ''h'')))
     = Some \<lparr> last_update_time = ''t3'',
              report_drives =
                [\<lparr> e_serial_number = Some ''SN2'', e_status = ''ok'', e_reason = ''none'' \<rparr>,
                 \<lparr> e_serial_number = Some ''SN1'', e_status = ''empty'', e_reason = ''none'' \<rparr>] \<rparr>"
proof -
  let ?s = "run [(''t1'', drivemanager_event ''ENC1/disk/1/status'' ''ok_none'' ''SN2''),
                 (''t2'', drivemanager_event ''ENC1/disk/2/status'' ''empty_none'' ''SN1'')]
              (initialize ''h'')"
  let ?es = "[\<lparr> e_serial_number = Some ''SN2'', e_status = ''ok'', e_reason = ''none'' \<rparr>,
              \<lparr> e_serial_number = Some ''SN1'', e_status = ''empty'', e_reason = ''none'' \<rparr>]"
  have h: "drives_list (drvmngr_drives ?s) = Inr ?es" by code_simp
  have "map (\<lambda>(k, d). drives_entry_of d) (drvmngr_drives ?s) = ?es" by code_simp
  with report_in_iteration_order [OF h, of "''t3''"] show ?thesis by simp
qed

text \<open>
  Events for SN2 and then SN1, both well formed: the report lists SN2 before SN1, which
  is not the order of the serial numbers.
\<close>

theorem report_sorted_by_key_counterexample:
  "dmreport_file
     (run [(''t1'', drivemanager_event ''ENC1/disk/1/status'' ''ok_none'' ''SN2''),
           (''t2'', drivemanager_event ''ENC1/disk/2/status'' ''empty_none'' ''SN1'')]
        (initialize ''h''))
     = Some \<lparr> last_update_time = ''t2'',
              report_drives =
                [\<lparr> e_serial_number = Some ''SN2'', e_status = ''ok'', e_reason = ''none'' \<rparr>,
                 \<lparr> e_serial_number = Some ''SN1'', e_status = ''empty'', e_reason = ''none'' \<rparr>] \<rparr>
   \<and> \<not> sorted [''SN2'', ''SN1'']"
  by code_simp

section \<open>More state changes of the helpers\<close>

lemma log_all_log_all [simp]: "log_all a (log_all b s) = log_all (b @ a) s"
  by (simp add: log_all_def)

lemma ex_log_all [simp]: "\<exists>lg. log_all a s = log_all lg s"
  by blast

lemma iems_simps [simp]:
  "iems (write_internal_msgQ (RabbitMQegressProcessor p) s) = iems s"
  "iems (write_internal_msgQ (LoggingMsgHandler r) s) = iems s @ [r]"
  "iems (log e s) = iems s"
  "iems (log_all es s) = iems s"
  "iems (serialize_disk_status now s) = iems s"
  "iems (s\<lparr> drvmngr_drives := dm \<rparr>) = iems s"
  "iems (s\<lparr> hpi_drives := hp \<rparr>) = iems s"
  by (simp_all add: iems_def write_internal_msgQ_def log_def log_all_def
        serialize_disk_status_def split: sum.splits)

lemma same_views_refl [simp]: "same_views s s"
  by (simp add: same_views_def)

lemma same_views_simps [simp]:
  "same_views s (log e s') = same_views s s'"
  "same_views s (log_all es s') = same_views s s'"
  "same_views s (write_internal_msgQ (RabbitMQegressProcessor p) s') = same_views s s'"
  by (simp_all add: same_views_def)

lemma smart_test_all_same_views:
  "same_views s0 s \<Longrightarrow> same_views s0 (snd (smart_test_all ds node_request uuid s))"
  by (induction ds node_request uuid s rule: smart_test_all.induct)
     (auto split: sum.splits)

lemma foldl_drvmngr_same_views:
  "same_views s0 s \<Longrightarrow>
   same_views s0
     (foldl (\<lambda>s' (k, d).
               write_internal_msgQ (RabbitMQegressProcessor (toDriveMngrJsonMsg d uuid)) s') s ds)"
  by (induction ds arbitrary: s) (auto split: prod.splits)

lemma foldl_hpi_same_views:
  "same_views s0 s \<Longrightarrow>
   same_views s0
     (foldl (\<lambda>s' (k, d).
               write_internal_msgQ (RabbitMQegressProcessor (toHPIjsonMsg d uuid)) s') s ds)"
  by (induction ds arbitrary: s) (auto split: prod.splits)

lemma request_same_views:
  assumes "jsonMsg ''sensor_response_type'' \<noteq> Some ''disk_status_drivemanager''"
      and "jsonMsg ''sensor_response_type'' \<noteq> Some ''disk_status_hpi''"
  shows "same_views s (snd (process_msg now jsonMsg s))"
  using assms smart_test_all_same_views [of s s]
    foldl_drvmngr_same_views [of s s] foldl_hpi_same_views [of s s]
  by (auto simp: process_msg_def Let_def disk_smart_test_def drvmngr_status_def hpi_status_def
        split: option.splits sum.splits)

section \<open>The two event handlers, case by case\<close>

lemma drivemanager_drive_cong:
  assumes "host_id s' = host_id s" and "hpi_drives s' = hpi_drives s"
      and "drivemanager_drive jsonMsg s = Inr (d, s1)"
  shows "\<exists>lg. drivemanager_drive jsonMsg s' = Inr (d, log_all lg s')"
proof (cases "jsonMsg ''event_path''")
  case (Some p)
  with assms show ?thesis
    by (auto simp: drivemanager_drive_def Let_def split: prod.splits if_splits)
next
  case None
  show ?thesis
  proof (cases "hpi_event_path (hpi_drives s) (jsonMsg ''serial_number'')")
    case (Inl e)
    with None assms show ?thesis
      by (auto simp: drivemanager_drive_def Let_def log_as_log_all split: prod.splits if_splits)
  next
    case (Inr p)
    with None assms show ?thesis
      by (auto simp: drivemanager_drive_def Let_def split: prod.splits if_splits)
  qed
qed

lemma log_IEM_cases:
  "(\<exists>e. \<forall>s. log_IEM d s = (Inl e, s))
   \<or> (\<exists>r. \<forall>s. log_IEM d s = (Inr (), write_internal_msgQ (LoggingMsgHandler r) s))"
proof (cases "split_status d")
  case (Inl e)
  then show ?thesis by (simp add: log_IEM_def)
next
  case (Inr p)
  obtain st reason where p: "p = (st, reason)" by (cases p)
  show ?thesis
  proof (cases "iem_log_msg st reason")
    case None
    with Inr p show ?thesis by (simp add: log_IEM_def)
  next
    case (Some m)
    with Inr p have "\<forall>s. log_IEM d s = (Inr (), write_internal_msgQ (iem m d st reason) s)"
      by (simp add: log_IEM_def iem_def)
    then show ?thesis unfolding iem_def by blast
  qed
qed


lemma drivemanager_raise:
  assumes "drivemanager_drive jsonMsg s = Inr (d, log_all lg s)"
      and "status_changed (drvmngr_drives s) (jsonMsg ''serial_number'') d"
      and "\<forall>t. log_IEM d t = (Inl e, t)"
  shows "disk_status_drivemanager now jsonMsg s
           = (Inl e,
              write_internal_msgQ (RabbitMQegressProcessor (toDriveMngrJsonMsg d None))
                (log_all lg s))"
  using assms by (simp add: disk_status_drivemanager_def Let_def)

lemma drivemanager_iem:
  assumes "drivemanager_drive jsonMsg s = Inr (d, log_all lg s)"
      and "status_changed (drvmngr_drives s) (jsonMsg ''serial_number'') d"
      and "\<forall>t. log_IEM d t = (Inr (), write_internal_msgQ (LoggingMsgHandler i) t)"
  shows "disk_status_drivemanager now jsonMsg s
           = (Inr (),
              serialize_disk_status now
                ((write_internal_msgQ (LoggingMsgHandler i)
                    (write_internal_msgQ (RabbitMQegressProcessor (toDriveMngrJsonMsg d None))
                       (log_all lg s)))
                 \<lparr> drvmngr_drives :=
                      AList.update (jsonMsg ''serial_number'') d (drvmngr_drives s) \<rparr>))"
  using assms by (simp add: disk_status_drivemanager_def Let_def)

lemma drivemanager_same_status:
  assumes "drivemanager_drive jsonMsg s = Inr (d, log_all lg s)"
      and "\<not> status_changed (drvmngr_drives s) (jsonMsg ''serial_number'') d"
  shows "disk_status_drivemanager now jsonMsg s
           = (Inr (),
              serialize_disk_status now
                ((write_internal_msgQ (RabbitMQegressProcessor (toDriveMngrJsonMsg d None))
                    (log_all lg s))
                 \<lparr> drvmngr_drives :=
                      AList.update (jsonMsg ''serial_number'') d (drvmngr_drives s) \<rparr>))"
  using assms by (simp add: disk_status_drivemanager_def Let_def)

lemma drivemanager_dropped:
  assumes "\<not> event_path_ok jsonMsg"
  shows "\<exists>lg. disk_status_drivemanager now jsonMsg s = (Inr (), log_all lg s)"
  using drivemanager_drive_not_ok [OF assms, of s]
  by (auto simp: disk_status_drivemanager_def Let_def)

lemma status_changed_update [simp]:
  "\<not> status_changed (AList.update k d dm) k d"
  by (simp add: status_changed_def update_conv')


lemma drivemanager_twice:
  assumes a1: "disk_status_drivemanager now1 jsonMsg s = (r1, s1)"
      and a2: "disk_status_drivemanager now2 jsonMsg s1 = (r2, s2)"
  shows "drvmngr_drives s2 = drvmngr_drives s1 \<and> hpi_drives s2 = hpi_drives s1
         \<and> iems s2 = iems s1"
proof (cases "event_path_ok jsonMsg")
  case False
  from drivemanager_dropped [OF False, of now2 s1] a2 show ?thesis by auto
next
  case True
  let ?k = "jsonMsg ''serial_number''"
  from drivemanager_drive_ok [OF True, of s] obtain d lg
    where dd: "drivemanager_drive jsonMsg s = Inr (d, log_all lg s)" by blast
  let ?e = "RabbitMQegressProcessor (toDriveMngrJsonMsg d None)"
  have second:
    "drvmngr_drives s2 = drvmngr_drives s1 \<and> hpi_drives s2 = hpi_drives s1 \<and> iems s2 = iems s1"
    if h: "host_id s1 = host_id s" "hpi_drives s1 = hpi_drives s"
      and dm: "drvmngr_drives s1 = AList.update ?k d (drvmngr_drives s)"
  proof -
    from drivemanager_drive_cong [OF h dd] obtain lg'
      where dd1: "drivemanager_drive jsonMsg s1 = Inr (d, log_all lg' s1)" by blast
    have "\<not> status_changed (drvmngr_drives s1) ?k d" unfolding dm by simp
    from drivemanager_same_status [OF dd1 this, of now2] a2 dm show ?thesis by auto
  qed
  show ?thesis
  proof (cases "status_changed (drvmngr_drives s) ?k d")
    case False
    from drivemanager_same_status [OF dd False, of now1] a1
    have "host_id s1 = host_id s" "hpi_drives s1 = hpi_drives s"
      "drvmngr_drives s1 = AList.update ?k d (drvmngr_drives s)" by auto
    then show ?thesis by (rule second)
  next
    case changed: True
    from log_IEM_cases [of d] show ?thesis
    proof
      assume "\<exists>e. \<forall>t. log_IEM d t = (Inl e, t)"
      then obtain e where e: "\<forall>t. log_IEM d t = (Inl e, t)" by blast
      from drivemanager_raise [OF dd changed e, of now1] a1
      have s1: "s1 = write_internal_msgQ ?e (log_all lg s)" by simp
      then have h: "host_id s1 = host_id s" "hpi_drives s1 = hpi_drives s"
        and dm: "drvmngr_drives s1 = drvmngr_drives s" by simp_all
      from drivemanager_drive_cong [OF h dd] obtain lg'
        where dd1: "drivemanager_drive jsonMsg s1 = Inr (d, log_all lg' s1)" by blast
      from changed dm have "status_changed (drvmngr_drives s1) ?k d" by simp
      from drivemanager_raise [OF dd1 this e, of now2] a2 show ?thesis by auto
    next
      assume "\<exists>i. \<forall>t. log_IEM d t = (Inr (), write_internal_msgQ (LoggingMsgHandler i) t)"
      then obtain i
        where i: "\<forall>t. log_IEM d t = (Inr (), write_internal_msgQ (LoggingMsgHandler i) t)"
        by blast
      from drivemanager_iem [OF dd changed i, of now1] a1
      have "host_id s1 = host_id s" "hpi_drives s1 = hpi_drives s"
        "drvmngr_drives s1 = AList.update ?k d (drvmngr_drives s)" by auto
      then show ?thesis by (rule second)
    qed
  qed
qed

lemma drivemanager_first_incident:
  assumes ok: "event_path_ok jsonMsg"
      and old: "map_of (drvmngr_drives s) (jsonMsg ''serial_number'') = Some old"
      and ne: "status old \<noteq> jsonMsg ''status''"
      and a1: "disk_status_drivemanager now jsonMsg s = (Inr (), s1)"
  shows "\<exists>i. iems s1 = iems s @ [i]"
proof -
  from drivemanager_drive_ok [OF ok, of s] obtain d lg
    where dd: "drivemanager_drive jsonMsg s = Inr (d, log_all lg s)"
      and st: "status d = jsonMsg ''status''" by blast
  from old ne st have changed: "status_changed (drvmngr_drives s) (jsonMsg ''serial_number'') d"
    by (simp add: status_changed_def)
  from log_IEM_cases [of d] show ?thesis
  proof
    assume "\<exists>e. \<forall>t. log_IEM d t = (Inl e, t)"
    then obtain e where e: "\<forall>t. log_IEM d t = (Inl e, t)" by blast
    from drivemanager_raise [OF dd changed e, of now] a1 show ?thesis by simp
  next
    assume "\<exists>i. \<forall>t. log_IEM d t = (Inr (), write_internal_msgQ (LoggingMsgHandler i) t)"
    then obtain i
      where i: "\<forall>t. log_IEM d t = (Inr (), write_internal_msgQ (LoggingMsgHandler i) t)"
      by blast
    from drivemanager_iem [OF dd changed i, of now] a1 show ?thesis by auto
  qed
qed

lemma log_IEM_known:
  assumes "CHR ''_'' \<in> set (str (status d))"
      and "lower (takeWhile (\<lambda>c. c \<noteq> CHR ''_'') (str (status d))) \<in> known_states"
  shows "\<exists>i. \<forall>t. log_IEM d t = (Inr (), write_internal_msgQ (LoggingMsgHandler i) t)"
proof -
  from assms(1) have "\<not> (\<exists>e. split_status d = Inl e)" by (simp add: split_status_Inl_iff)
  then obtain p where sp: "split_status d = Inr p" by (cases "split_status d") auto
  obtain st reason where p: "p = (st, reason)" by (cases p)
  from split_status_Inr_takeWhile [of d st reason] sp p
  have "st = takeWhile (\<lambda>c. c \<noteq> CHR ''_'') (str (status d))" by simp
  with assms(2) have "iem_log_msg st reason \<noteq> None" by (simp add: iem_log_msg_None)
  then obtain m where "iem_log_msg st reason = Some m" by auto
  with sp p have "\<forall>t. log_IEM d t = (Inr (), write_internal_msgQ (iem m d st reason) t)"
    by (simp add: log_IEM_def iem_def)
  then show ?thesis unfolding iem_def by blast
qed

lemma drivemanager_known_incident:
  assumes ok: "event_path_ok jsonMsg"
      and old: "map_of (drvmngr_drives s) (jsonMsg ''serial_number'') = Some old"
      and ne: "status old \<noteq> jsonMsg ''status''"
      and sep: "CHR ''_'' \<in> set (str (jsonMsg ''status''))"
      and known: "lower (takeWhile (\<lambda>c. c \<noteq> CHR ''_'') (str (jsonMsg ''status''))) \<in> known_states"
  shows "fst (disk_status_drivemanager now jsonMsg s) = Inr ()
         \<and> (\<exists>i. iems (snd (disk_status_drivemanager now jsonMsg s)) = iems s @ [i])"
proof -
  from drivemanager_drive_ok [OF ok, of s] obtain d lg
    where dd: "drivemanager_drive jsonMsg s = Inr (d, log_all lg s)"
      and st: "status d = jsonMsg ''status''" by blast
  from old ne st have changed: "status_changed (drvmngr_drives s) (jsonMsg ''serial_number'') d"
    by (simp add: status_changed_def)
  from log_IEM_known [of d] sep known st obtain i
    where i: "\<forall>t. log_IEM d t = (Inr (), write_internal_msgQ (LoggingMsgHandler i) t)"
    by auto
  from drivemanager_iem [OF dd changed i, of now] show ?thesis by simp
qed

lemma disk_status_hpi_dropped:
  assumes "\<not> hpi_path_ok jsonMsg"
  shows "\<exists>lg. disk_status_hpi now jsonMsg s = (Inr (), log_all lg s)"
proof (cases "jsonMsg ''event_path''")
  case None
  then show ?thesis
    by (auto simp: disk_status_hpi_def parse_hpi_path_def Drive_def log_as_log_all log_all_def)
next
  case (Some p)
  with assms have "length (split CHR ''/'' p) < 3" by (simp add: hpi_path_ok_def)
  with Some show ?thesis
    by (auto simp: disk_status_hpi_def parse_hpi_path_def Drive_def Let_def log_as_log_all)
qed

lemma disk_status_hpi_stored:
  assumes "hpi_path_ok jsonMsg"
  shows "disk_status_hpi now jsonMsg s =
           (Inr (),
            write_internal_msgQ
              (RabbitMQegressProcessor (toHPIjsonMsg (hpi_record (host_id s) jsonMsg) None))
              (serialize_disk_status now
                 (s\<lparr> hpi_drives :=
                        AList.update (jsonMsg ''serialNumber'') (hpi_record (host_id s) jsonMsg)
                          (hpi_drives s),
                     drvmngr_drives :=
                        AList.update (jsonMsg ''serialNumber'')
                          (synthesized_record (host_id s) jsonMsg) (drvmngr_drives s) \<rparr>)))"
proof -
  from assms obtain p where p: "jsonMsg ''event_path'' = Some p"
    and len: "3 \<le> length (split CHR ''/'' p)"
    by (auto simp: hpi_path_ok_def split: option.splits)
  let ?segs = "split CHR ''/'' p"
  from len have "?segs ! 0 \<in> set ?segs" "?segs ! 2 \<in> set ?segs"
    by (auto intro!: nth_mem)
  then have "CHR ''/'' \<notin> set (?segs ! 0)" "CHR ''/'' \<notin> set (?segs ! 2)"
    by (auto dest: split_no_sep)
  then have sp: "split CHR ''/'' (?segs ! 0 @ ''/disk/'' @ ?segs ! 2 @ ''/status'')
                  = [?segs ! 0, ''disk'', ?segs ! 2, ''status'']"
    by (rule split_synthesized)
  have ph: "parse_hpi_path
              (Drive (host_id s) (jsonMsg ''event_path'') (jsonMsg ''status'')
                 (jsonMsg ''serialNumber'') (jsonMsg ''drawer'') (jsonMsg ''location'')
                 (jsonMsg ''manufacturer'') (jsonMsg ''productName'')
                 (jsonMsg ''productVersion'') (jsonMsg ''wwn''))
            = (True, hpi_record (host_id s) jsonMsg, [])"
    using p len by (simp add: parse_hpi_path_def hpi_record_def Drive_def Let_def str_def)
  have en: "enclosure (hpi_record (host_id s) jsonMsg) = ?segs ! 0"
    and dn: "drive_num (hpi_record (host_id s) jsonMsg) = PyStr (?segs ! 2)"
    using p by (simp_all add: hpi_record_def str_def)
  have pd: "parse_drive_mngr_path
              (Drive4 (host_id s) (Some (?segs ! 0 @ ''/disk/'' @ ?segs ! 2 @ ''/status''))
                 (jsonMsg ''status'') (jsonMsg ''serialNumber''))
            = (True, synthesized_record (host_id s) jsonMsg, [])"
    using p sp by (simp add: parse_drive_mngr_path_def synthesized_record_def Drive4_def
        Drive_def Let_def str_def)
  have st: "(log_all [] s)\<lparr>hpi_drives := AList.update (jsonMsg ''serialNumber'')
                 (hpi_record (host_id s) jsonMsg) (hpi_drives s)\<rparr>
            = s\<lparr>hpi_drives := AList.update (jsonMsg ''serialNumber'')
                 (hpi_record (host_id s) jsonMsg) (hpi_drives s)\<rparr>" by simp
  show ?thesis
    unfolding disk_status_hpi_def ph
    by (simp add: en dn pd Let_def del: append.simps)
qed


lemma hpi_twice:
  assumes a1: "disk_status_hpi now1 jsonMsg s = (r1, s1)"
      and a2: "disk_status_hpi now2 jsonMsg s1 = (r2, s2)"
  shows "drvmngr_drives s2 = drvmngr_drives s1 \<and> hpi_drives s2 = hpi_drives s1
         \<and> iems s2 = iems s1"
proof (cases "hpi_path_ok jsonMsg")
  case False
  from disk_status_hpi_dropped [OF False, of now2 s1] a2 show ?thesis by auto
next
  case True
  from disk_status_hpi_stored [OF True, of now1 s] a1
  have h: "host_id s1 = host_id s"
    and hp: "hpi_drives s1 = AList.update (jsonMsg ''serialNumber'')
                (hpi_record (host_id s) jsonMsg) (hpi_drives s)"
    and dm: "drvmngr_drives s1 = AList.update (jsonMsg ''serialNumber'')
                (synthesized_record (host_id s) jsonMsg) (drvmngr_drives s)"
    by auto
  from disk_status_hpi_stored [OF True, of now2 s1] a2 h hp dm show ?thesis by auto
qed

section \<open>Replaying an event\<close>

lemma process_msg_twice:
  assumes a1: "process_msg now1 jsonMsg s = (r1, s1)"
      and a2: "process_msg now2 jsonMsg s1 = (r2, s2)"
  shows "drvmngr_drives s2 = drvmngr_drives s1 \<and> hpi_drives s2 = hpi_drives s1
         \<and> iems s2 = iems s1
         \<and> (jsonMsg ''sensor_response_type'' = Some ''disk_status_drivemanager''
              \<and> event_path_ok jsonMsg
              \<and> map_of (drvmngr_drives s) (jsonMsg ''serial_number'') = Some old
              \<and> status old \<noteq> jsonMsg ''status'' \<and> r1 = Inr ()
            \<longrightarrow> (\<exists>i. iems s1 = iems s @ [i]))"
proof -
  consider (dm) "jsonMsg ''sensor_response_type'' = Some ''disk_status_drivemanager''"
    | (hpi) "jsonMsg ''sensor_response_type'' = Some ''disk_status_hpi''"
    | (other) "jsonMsg ''sensor_response_type'' \<noteq> Some ''disk_status_drivemanager''"
              "jsonMsg ''sensor_response_type'' \<noteq> Some ''disk_status_hpi''"
    by blast
  then show ?thesis
  proof cases
    case dm
    with a1 a2 have b1: "disk_status_drivemanager now1 jsonMsg s = (r1, s1)"
      and b2: "disk_status_drivemanager now2 jsonMsg s1 = (r2, s2)"
      by (simp_all add: process_msg_def)
    from drivemanager_twice [OF b1 b2] drivemanager_first_incident [of jsonMsg s old now1 s1] b1
    show ?thesis by blast
  next
    case hpi
    with a1 a2 have b1: "disk_status_hpi now1 jsonMsg s = (r1, s1)"
      and b2: "disk_status_hpi now2 jsonMsg s1 = (r2, s2)"
      by (simp_all add: process_msg_def)
    from hpi_twice [OF b1 b2] hpi show ?thesis by simp
  next
    case other
    from request_same_views [of jsonMsg s1 now2] a2 other show ?thesis
      by (simp add: same_views_def)
  qed
qed


text \<open>
  C5, as amended. Processing an event message a second time, right after the first,
  leaves the drive manager view and the inventory view as the first processing left
  them (also when a call ends in an exception), and the second processing sends no IEM.
  The first processing sends exactly one IEM, and returns normally, when the message is
  a drivemanager event that passes the path check, its status differs from the stored
  one, and that status has a \<open>_\<close> and a state which in lower case is one of empty,
  unused, ok, inuse, failed.
\<close>

theorem replay_idempotent:
  "drvmngr_drives (snd (process_msg now2 jsonMsg (snd (process_msg now1 jsonMsg s))))
     = drvmngr_drives (snd (process_msg now1 jsonMsg s))
   \<and> hpi_drives (snd (process_msg now2 jsonMsg (snd (process_msg now1 jsonMsg s))))
     = hpi_drives (snd (process_msg now1 jsonMsg s))
   \<and> iems (snd (process_msg now2 jsonMsg (snd (process_msg now1 jsonMsg s))))
     = iems (snd (process_msg now1 jsonMsg s))
   \<and> (jsonMsg ''sensor_response_type'' = Some ''disk_status_drivemanager''
        \<and> event_path_ok jsonMsg
        \<and> map_of (drvmngr_drives s) (jsonMsg ''serial_number'') = Some old
        \<and> status old \<noteq> jsonMsg ''status''
        \<and> CHR ''_'' \<in> set (str (jsonMsg ''status''))
        \<and> lower (takeWhile (\<lambda>c. c \<noteq> CHR ''_'') (str (jsonMsg ''status''))) \<in> known_states
      \<longrightarrow> fst (process_msg now1 jsonMsg s) = Inr ()
          \<and> (\<exists>i. iems (snd (process_msg now1 jsonMsg s)) = iems s @ [i]))"
proof -
  have "drvmngr_drives (snd (process_msg now2 jsonMsg (snd (process_msg now1 jsonMsg s))))
     = drvmngr_drives (snd (process_msg now1 jsonMsg s))
   \<and> hpi_drives (snd (process_msg now2 jsonMsg (snd (process_msg now1 jsonMsg s))))
     = hpi_drives (snd (process_msg now1 jsonMsg s))
   \<and> iems (snd (process_msg now2 jsonMsg (snd (process_msg now1 jsonMsg s))))
     = iems (snd (process_msg now1 jsonMsg s))"
    using process_msg_twice
          [of now1 jsonMsg s "fst (process_msg now1 jsonMsg s)" "snd (process_msg now1 jsonMsg s)"
              now2 "fst (process_msg now2 jsonMsg (snd (process_msg now1 jsonMsg s)))"
              "snd (process_msg now2 jsonMsg (snd (process_msg now1 jsonMsg s)))" old]
    by simp
  moreover have "fst (process_msg now1 jsonMsg s) = Inr ()
          \<and> (\<exists>i. iems (snd (process_msg now1 jsonMsg s)) = iems s @ [i])"
    if "jsonMsg ''sensor_response_type'' = Some ''disk_status_drivemanager''"
      "event_path_ok jsonMsg"
      "map_of (drvmngr_drives s) (jsonMsg ''serial_number'') = Some old"
      "status old \<noteq> jsonMsg ''status''"
      "CHR ''_'' \<in> set (str (jsonMsg ''status''))"
      "lower (takeWhile (\<lambda>c. c \<noteq> CHR ''_'') (str (jsonMsg ''status''))) \<in> known_states"
    using drivemanager_known_incident [OF that(2-6), of now1] that(1)
    by (simp add: process_msg_def)
  ultimately show ?thesis by blast
qed

theorem replay_idempotent_witness:
  "fst (process_msg ''t2'' (drivemanager_event ''ENC1/disk/3/status'' ''ok_none'' ''SN42'')
      (run [(''t1'', drivemanager_event ''ENC1/disk/3/status'' ''failed_smart'' ''SN42'')]
         (initialize ''h''))) = Inr ()
   \<and> length (iems (snd (process_msg ''t2''
        (drivemanager_event ''ENC1/disk/3/status'' ''ok_none'' ''SN42'')
        (run [(''t1'', drivemanager_event ''ENC1/disk/3/status'' ''failed_smart'' ''SN42'')]
           (initialize ''h''))))) = 1
   \<and> length (iems (snd (process_msg ''t3''
        (drivemanager_event ''ENC1/disk/3/status'' ''ok_none'' ''SN42'')
        (snd (process_msg ''t2'' (drivemanager_event ''ENC1/disk/3/status'' ''ok_none'' ''SN42'')
           (run [(''t1'', drivemanager_event ''ENC1/disk/3/status'' ''failed_smart'' ''SN42'')]
              (initialize ''h''))))))) = 1
   \<and> drvmngr_drives (snd (process_msg ''t3''
        (drivemanager_event ''ENC1/disk/3/status'' ''ok_none'' ''SN42'')
        (snd (process_msg ''t2'' (drivemanager_event ''ENC1/disk/3/status'' ''ok_none'' ''SN42'')
           (run [(''t1'', drivemanager_event ''ENC1/disk/3/status'' ''failed_smart'' ''SN42'')]
              (initialize ''h''))))))
     = drvmngr_drives (snd (process_msg ''t2''
        (drivemanager_event ''ENC1/disk/3/status'' ''ok_none'' ''SN42'')
        (run [(''t1'', drivemanager_event ''ENC1/disk/3/status'' ''failed_smart'' ''SN42'')]
           (initialize ''h''))))"
proof -
  let ?m = "drivemanager_event ''ENC1/disk/3/status'' ''ok_none'' ''SN42''"
  let ?s = "run [(''t1'', drivemanager_event ''ENC1/disk/3/status'' ''failed_smart'' ''SN42'')]
              (initialize ''h'')"
  let ?old = "(Drive4 ''h'' (Some ''ENC1/disk/3/status'') (Some ''failed_smart'') (Some ''SN42''))
                \<lparr> enclosure := ''ENC1'', drive_num := PyStr ''3'', filename := ''status'' \<rparr>"
  have h1: "?m ''sensor_response_type'' = Some ''disk_status_drivemanager''"
    by (simp add: drivemanager_event_def)
  have h2: "event_path_ok ?m" by code_simp
  have h3: "map_of (drvmngr_drives ?s) (?m ''serial_number'') = Some ?old" by code_simp
  have h4: "status ?old \<noteq> ?m ''status''" by code_simp
  have h5: "CHR ''_'' \<in> set (str (?m ''status''))"
    by (simp add: drivemanager_event_def str_def)
  have "lower ''ok'' = ''ok''" by code_simp
  then have h6: "lower (takeWhile (\<lambda>c. c \<noteq> CHR ''_'') (str (?m ''status''))) \<in> known_states"
    by (simp add: drivemanager_event_def str_def known_states_def)
  have h7: "iems ?s = []" by code_simp
  from replay_idempotent [of "''t3''" ?m "''t2''" ?s ?old] h1 h2 h3 h4 h5 h6 h7
  show ?thesis by auto
qed

text \<open>
  The drive SN42 is stored with status ok\_none. An HPI event for SN42 with status
  failed\_smart replaces the stored status and sends no IEM, on the first processing as
  on the second: HPI events never reach \<open>_log_IEM\<close>. A drivemanager event for SN42 with
  status missing\_none, whose state is unknown, ends in UnboundLocalError and sends no
  IEM either.
\<close>

theorem replay_incident_counterexample:
  "map_option status
     (map_of (drvmngr_drives
                (run [(''t1'', drivemanager_event ''ENC1/disk/3/status'' ''ok_none'' ''SN42'')]
                   (initialize ''h'')))
        (Some ''SN42''))
     = Some (Some ''ok_none'')
   \<and> map_option status
     (map_of (drvmngr_drives
                (snd (process_msg ''t2'' (hpi_event ''ENC1/disk/3'' ''failed_smart'' ''SN42'')
                   (run [(''t1'', drivemanager_event ''ENC1/disk/3/status'' ''ok_none'' ''SN42'')]
                      (initialize ''h'')))))
        (Some ''SN42''))
     = Some (Some ''failed_smart'')
   \<and> iems (snd (process_msg ''t2'' (hpi_event ''ENC1/disk/3'' ''failed_smart'' ''SN42'')
              (run [(''t1'', drivemanager_event ''ENC1/disk/3/status'' ''ok_none'' ''SN42'')]
                 (initialize ''h''))))
     = []
   \<and> process_msg ''t2'' (drivemanager_event ''ENC1/disk/3/status'' ''missing_none'' ''SN42'')
       (run [(''t1'', drivemanager_event ''ENC1/disk/3/status'' ''ok_none'' ''SN42'')]
          (initialize ''h''))
     = (Inl (UnboundLocalError ''log_msg''),
        write_internal_msgQ
          (RabbitMQegressProcessor
             (DriveMngrMsg ''ENC1'' (PyStr ''3'') (Some ''missing_none'') (Some ''SN42'') None))
          (run [(''t1'', drivemanager_event ''ENC1/disk/3/status'' ''ok_none'' ''SN42'')]
             (initialize ''h'')))
   \<and> iems (write_internal_msgQ
          (RabbitMQegressProcessor
             (DriveMngrMsg ''ENC1'' (PyStr ''3'') (Some ''missing_none'') (Some ''SN42'') None))
          (run [(''t1'', drivemanager_event ''ENC1/disk/3/status'' ''ok_none'' ''SN42'')]
             (initialize ''h'')))
     = []"
  by code_simp

section \<open>The inventory view and the drive manager view\<close>

lemma process_msg_stores:
  "(hpi_drives (snd (process_msg now jsonMsg s)) = hpi_drives s
      \<and> (drvmngr_drives (snd (process_msg now jsonMsg s)) = drvmngr_drives s
           \<or> (\<exists>d. drvmngr_drives (snd (process_msg now jsonMsg s))
                   = AList.update (jsonMsg ''serial_number'') d (drvmngr_drives s))))
   \<or> (\<exists>d dm. hpi_drives (snd (process_msg now jsonMsg s))
                  = AList.update (jsonMsg ''serialNumber'') d (hpi_drives s)
              \<and> drvmngr_drives (snd (process_msg now jsonMsg s))
                  = AList.update (jsonMsg ''serialNumber'') dm (drvmngr_drives s))"
proof -
  consider (dm) "jsonMsg ''sensor_response_type'' = Some ''disk_status_drivemanager''"
    | (hpi) "jsonMsg ''sensor_response_type'' = Some ''disk_status_hpi''"
    | (other) "jsonMsg ''sensor_response_type'' \<noteq> Some ''disk_status_drivemanager''"
              "jsonMsg ''sensor_response_type'' \<noteq> Some ''disk_status_hpi''"
    by blast
  then show ?thesis
  proof cases
    case dm
    then have pm: "process_msg now jsonMsg s = disk_status_drivemanager now jsonMsg s"
      by (simp add: process_msg_def)
    show ?thesis
    proof (cases "event_path_ok jsonMsg")
      case False
      from drivemanager_dropped [OF False, of now s] obtain lg
        where "disk_status_drivemanager now jsonMsg s = (Inr (), log_all lg s)" by blast
      with pm show ?thesis by simp
    next
      case True
      let ?k = "jsonMsg ''serial_number''"
      from drivemanager_drive_ok [OF True, of s] obtain d lg
        where dd: "drivemanager_drive jsonMsg s = Inr (d, log_all lg s)" by blast
      show ?thesis
      proof (cases "status_changed (drvmngr_drives s) ?k d")
        case False
        from drivemanager_same_status [OF dd False, of now] pm
        have "hpi_drives (snd (process_msg now jsonMsg s)) = hpi_drives s"
          and "drvmngr_drives (snd (process_msg now jsonMsg s))
                 = AList.update ?k d (drvmngr_drives s)" by simp_all
        then show ?thesis by blast
      next
        case changed: True
        from log_IEM_cases [of d] show ?thesis
        proof
          assume "\<exists>e. \<forall>t. log_IEM d t = (Inl e, t)"
          then obtain e where e: "\<forall>t. log_IEM d t = (Inl e, t)" by blast
          from drivemanager_raise [OF dd changed e, of now] pm show ?thesis by simp
        next
          assume "\<exists>i. \<forall>t. log_IEM d t = (Inr (), write_internal_msgQ (LoggingMsgHandler i) t)"
          then obtain i
            where i: "\<forall>t. log_IEM d t = (Inr (), write_internal_msgQ (LoggingMsgHandler i) t)"
            by blast
          from drivemanager_iem [OF dd changed i, of now] pm
          have "hpi_drives (snd (process_msg now jsonMsg s)) = hpi_drives s"
            and "drvmngr_drives (snd (process_msg now jsonMsg s))
                   = AList.update ?k d (drvmngr_drives s)" by simp_all
          then show ?thesis by blast
        qed
      qed
    qed
  next
    case hpi
    then have pm: "process_msg now jsonMsg s = disk_status_hpi now jsonMsg s"
      by (simp add: process_msg_def)
    show ?thesis
    proof (cases "hpi_path_ok jsonMsg")
      case False
      from disk_status_hpi_dropped [OF False, of now s] obtain lg
        where "disk_status_hpi now jsonMsg s = (Inr (), log_all lg s)" by blast
      with pm show ?thesis by simp
    next
      case True
      from disk_status_hpi_stored [OF True, of now s] pm
      have "hpi_drives (snd (process_msg now jsonMsg s))
              = AList.update (jsonMsg ''serialNumber'') (hpi_record (host_id s) jsonMsg)
                  (hpi_drives s)"
        and "drvmngr_drives (snd (process_msg now jsonMsg s))
              = AList.update (jsonMsg ''serialNumber'') (synthesized_record (host_id s) jsonMsg)
                  (drvmngr_drives s)" by simp_all
      then show ?thesis by blast
    qed
  next
    case other
    from request_same_views [of jsonMsg s now] other show ?thesis
      by (simp add: same_views_def)
  qed
qed

lemma process_msg_serials:
  assumes inv: "fst ` set (hpi_drives s) \<subseteq> fst ` set (drvmngr_drives s)"
  shows "fst ` set (hpi_drives (snd (process_msg now jsonMsg s)))
           \<subseteq> fst ` set (drvmngr_drives (snd (process_msg now jsonMsg s)))"
proof -
  let ?s' = "snd (process_msg now jsonMsg s)"
  from process_msg_stores [of now jsonMsg s]
  consider (same) "hpi_drives ?s' = hpi_drives s" "drvmngr_drives ?s' = drvmngr_drives s"
    | (dm) d where "hpi_drives ?s' = hpi_drives s"
        "drvmngr_drives ?s' = AList.update (jsonMsg ''serial_number'') d (drvmngr_drives s)"
    | (hpi) d dm where
        "hpi_drives ?s' = AList.update (jsonMsg ''serialNumber'') d (hpi_drives s)"
        "drvmngr_drives ?s' = AList.update (jsonMsg ''serialNumber'') dm (drvmngr_drives s)"
    by blast
  then show ?thesis
  proof cases
    case same
    with inv show ?thesis by simp
  next
    case dm
    with inv show ?thesis by (simp add: dom_update) blast
  next
    case hpi
    with inv show ?thesis by (simp add: dom_update) blast
  qed
qed

lemma run_serials:
  "fst ` set (hpi_drives s) \<subseteq> fst ` set (drvmngr_drives s) \<Longrightarrow>
   fst ` set (hpi_drives (run msgs s)) \<subseteq> fst ` set (drvmngr_drives (run msgs s))"
proof (induction msgs arbitrary: s)
  case Nil
  then show ?case by simp
next
  case (Cons m msgs)
  obtain now jsonMsg where m: "m = (now, jsonMsg)" by (cases m)
  obtain r s' where p: "process_msg now jsonMsg s = (r, s')" by (cases "process_msg now jsonMsg s")
  from process_msg_serials [OF Cons.prems, of now jsonMsg] p
  have inv: "fst ` set (hpi_drives s') \<subseteq> fst ` set (drvmngr_drives s')" by simp
  show ?case
  proof (cases r)
    case (Inl e)
    from inv have "fst ` set (hpi_drives (log (LogException ''DiskMsgHandler restarting'') s'))
          \<subseteq> fst ` set (drvmngr_drives (log (LogException ''DiskMsgHandler restarting'') s'))"
      by simp
    from Cons.IH [OF this] m p Inl show ?thesis by simp
  next
    case (Inr u)
    from Cons.IH [OF inv] m p Inr show ?thesis by simp
  qed
qed

text \<open>
  C9. After any sequence of messages from the empty stores, every serial number of the
  inventory view is a key of the drive manager view. An HPI event that passes the path
  check stores its Drive in the inventory view and, under the same serial number, a
  Drive for the drive manager view that has the enclosure and the slot of the inventory
  Drive and the path made of them.
\<close>

theorem inventory_serials_in_drivemanager:
  "fst ` set (hpi_drives (run msgs (initialize h)))
     \<subseteq> fst ` set (drvmngr_drives (run msgs (initialize h)))
   \<and> (jsonMsg ''sensor_response_type'' = Some ''disk_status_hpi'' \<and> hpi_path_ok jsonMsg \<longrightarrow>
        map_of (hpi_drives (snd (process_msg now jsonMsg s))) (jsonMsg ''serialNumber'')
          = Some (hpi_record (host_id s) jsonMsg)
        \<and> map_of (drvmngr_drives (snd (process_msg now jsonMsg s))) (jsonMsg ''serialNumber'')
          = Some (synthesized_record (host_id s) jsonMsg)
        \<and> enclosure (synthesized_record (host_id s) jsonMsg)
          = enclosure (hpi_record (host_id s) jsonMsg)
        \<and> drive_num (synthesized_record (host_id s) jsonMsg)
          = drive_num (hpi_record (host_id s) jsonMsg))"
proof -
  have "fst ` set (hpi_drives (run msgs (initialize h)))
          \<subseteq> fst ` set (drvmngr_drives (run msgs (initialize h)))"
    by (rule run_serials) (simp add: initialize_def)
  moreover have "map_of (hpi_drives (snd (process_msg now jsonMsg s))) (jsonMsg ''serialNumber'')
          = Some (hpi_record (host_id s) jsonMsg)
        \<and> map_of (drvmngr_drives (snd (process_msg now jsonMsg s))) (jsonMsg ''serialNumber'')
          = Some (synthesized_record (host_id s) jsonMsg)"
    if "jsonMsg ''sensor_response_type'' = Some ''disk_status_hpi''" "hpi_path_ok jsonMsg"
    using that disk_status_hpi_stored [of jsonMsg now s]
    by (simp add: process_msg_def update_conv')
  moreover have "enclosure (synthesized_record (host_id s) jsonMsg)
          = enclosure (hpi_record (host_id s) jsonMsg)
        \<and> drive_num (synthesized_record (host_id s) jsonMsg)
          = drive_num (hpi_record (host_id s) jsonMsg)"
    by (simp add: synthesized_record_def hpi_record_def)
  ultimately show ?thesis by blast
qed

theorem inventory_serials_in_drivemanager_witness:
  "map_of (drvmngr_drives
             (snd (process_msg ''t'' (hpi_event ''ENC1/disk/3'' ''ok_none'' ''SN42'')
                     (initialize ''h''))))
     (Some ''SN42'')
     = Some (synthesized_record ''h'' (hpi_event ''ENC1/disk/3'' ''ok_none'' ''SN42''))
   \<and> path (synthesized_record ''h'' (hpi_event ''ENC1/disk/3'' ''ok_none'' ''SN42''))
     = Some ''ENC1/disk/3/status''
   \<and> fst ` set (hpi_drives (run [(''t'', hpi_event ''ENC1/disk/3'' ''ok_none'' ''SN42'')]
                               (initialize ''h'')))
     \<subseteq> fst ` set (drvmngr_drives (run [(''t'', hpi_event ''ENC1/disk/3'' ''ok_none'' ''SN42'')]
                                    (initialize ''h'')))"
proof -
  let ?m = "hpi_event ''ENC1/disk/3'' ''ok_none'' ''SN42''"
  have h1: "?m ''sensor_response_type'' = Some ''disk_status_hpi''"
    by (simp add: hpi_event_def)
  have h2: "hpi_path_ok ?m" by code_simp
  have h3: "?m ''serialNumber'' = Some ''SN42''" by (simp add: hpi_event_def)
  have h4: "host_id (initialize ''h'') = ''h''" by (simp add: initialize_def)
  have h5: "path (synthesized_record ''h'' ?m) = Some ''ENC1/disk/3/status''" by code_simp
  from inventory_serials_in_drivemanager
         [of "[(''t'', ?m)]" "''h''" ?m "''t''" "initialize ''h''"] h1 h2 h3 h4 h5
  show ?thesis by simp
qed

end
